theory Spec2Isabelle
  imports Main "HOL-Library.Sublist"
begin

chapter \<open>The program\<close>

section \<open>Go strings\<close>

text \<open>
  A Go \<open>string\<close> is a sequence of bytes, which is what \<^typ>\<open>string\<close> (a list of
  8-bit characters) is. The functions of package \<open>strings\<close> that \<open>main.go\<close> calls are
  modelled on bytes; where the Go function decodes UTF-8 (\<open>TrimSpace\<close>, \<open>Fields\<close>,
  \<open>ToLower\<close>) the model recognises the encodings concerned.
\<close>

text \<open>
  The UTF-8 encodings of the runes for which \<open>unicode.IsSpace\<close> holds: tab, line feed,
  vertical tab, form feed, carriage return, space, U+0085, U+00A0, U+1680,
  U+2000 to U+200A, U+2028, U+2029, U+202F, U+205F and U+3000. A rune decoded by Go
  at some position is one of these exactly when the bytes at that position start with
  its encoding, since only shortest encodings decode to a rune and an invalid byte
  decodes to U+FFFD.
\<close>

definition unicode_spaces :: "string list" where
  "unicode_spaces =
    [[CHR 0x09], [CHR 0x0A], [CHR 0x0B], [CHR 0x0C], [CHR 0x0D], [CHR 0x20],
     [CHR 0xC2, CHR 0x85], [CHR 0xC2, CHR 0xA0],
     [CHR 0xE1, CHR 0x9A, CHR 0x80],
     [CHR 0xE2, CHR 0x80, CHR 0x80], [CHR 0xE2, CHR 0x80, CHR 0x81],
     [CHR 0xE2, CHR 0x80, CHR 0x82], [CHR 0xE2, CHR 0x80, CHR 0x83],
     [CHR 0xE2, CHR 0x80, CHR 0x84], [CHR 0xE2, CHR 0x80, CHR 0x85],
     [CHR 0xE2, CHR 0x80, CHR 0x86], [CHR 0xE2, CHR 0x80, CHR 0x87],
     [CHR 0xE2, CHR 0x80, CHR 0x88], [CHR 0xE2, CHR 0x80, CHR 0x89],
     [CHR 0xE2, CHR 0x80, CHR 0x8A],
     [CHR 0xE2, CHR 0x80, CHR 0xA8], [CHR 0xE2, CHR 0x80, CHR 0xA9],
     [CHR 0xE2, CHR 0x80, CHR 0xAF],
     [CHR 0xE2, CHR 0x81, CHR 0x9F],
     [CHR 0xE3, CHR 0x80, CHR 0x80]]"

text \<open>The width of the white space rune a string starts with (ends with), 0 when it
  starts (ends) with none.\<close>

definition space_len :: "string \<Rightarrow> nat" where
  "space_len s =
     (case List.find (\<lambda>e. prefix e s) unicode_spaces of None \<Rightarrow> 0 | Some e \<Rightarrow> length e)"

definition space_len_end :: "string \<Rightarrow> nat" where
  "space_len_end s =
     (case List.find (\<lambda>e. suffix e s) unicode_spaces of None \<Rightarrow> 0 | Some e \<Rightarrow> length e)"

lemma space_len_le: "space_len s \<le> length s"
  by (auto simp: space_len_def find_Some_iff prefix_length_le split: option.splits)

lemma space_len_end_le: "space_len_end s \<le> length s"
  by (auto simp: space_len_end_def find_Some_iff suffix_length_le split: option.splits)

text \<open>\<open>strings.TrimSpace\<close>: white space runes are removed at the front, then at the back.\<close>

function TrimLeftSpace :: "string \<Rightarrow> string" where
  "TrimLeftSpace s = (if space_len s = 0 then s else TrimLeftSpace (drop (space_len s) s))"
  by pat_completeness auto
termination
proof (relation "measure length")
  show "wf (measure length)" by simp
next
  fix s :: string
  assume "space_len s \<noteq> 0"
  moreover have "space_len s \<le> length s" by (rule space_len_le)
  ultimately show "(drop (space_len s) s, s) \<in> measure length" by simp
qed

function TrimRightSpace :: "string \<Rightarrow> string" where
  "TrimRightSpace s =
     (if space_len_end s = 0 then s else TrimRightSpace (take (length s - space_len_end s) s))"
  by pat_completeness auto
termination
proof (relation "measure length")
  show "wf (measure length)" by simp
next
  fix s :: string
  assume "space_len_end s \<noteq> 0"
  moreover have "space_len_end s \<le> length s" by (rule space_len_end_le)
  ultimately show "(take (length s - space_len_end s) s, s) \<in> measure length" by simp
qed

declare TrimLeftSpace.simps [simp del] TrimRightSpace.simps [simp del]

definition TrimSpace :: "string \<Rightarrow> string" where
  "TrimSpace s = TrimRightSpace (TrimLeftSpace s)"

definition HasPrefix :: "string \<Rightarrow> string \<Rightarrow> bool" where
  "HasPrefix s p = prefix p s"

definition TrimPrefix :: "string \<Rightarrow> string \<Rightarrow> string" where
  "TrimPrefix s p = (if HasPrefix s p then drop (length p) s else s)"

definition TrimSuffix :: "string \<Rightarrow> string \<Rightarrow> string" where
  "TrimSuffix s p = (if suffix p s then take (length s - length p) s else s)"

text \<open>\<open>strings.Contains\<close>.\<close>

fun Contains :: "string \<Rightarrow> string \<Rightarrow> bool" where
  "Contains [] sub = (sub = [])"
| "Contains (c # cs) sub = (prefix sub (c # cs) \<or> Contains cs sub)"

text \<open>\<open>strings.Replace(s, old, new, 1)\<close> for a one-byte \<open>old\<close>: the first occurrence
  only.\<close>

fun ReplaceFirst :: "string \<Rightarrow> char \<Rightarrow> string \<Rightarrow> string" where
  "ReplaceFirst [] old new = []"
| "ReplaceFirst (c # cs) old new = (if c = old then new @ cs else c # ReplaceFirst cs old new)"

text \<open>\<open>strings.Split(s, sep)\<close> for a one-byte separator: one more piece than there are
  separators, so never an empty result.\<close>

fun Split :: "string \<Rightarrow> char \<Rightarrow> string list" where
  "Split [] sep = [[]]"
| "Split (c # cs) sep =
     (if c = sep then [] # Split cs sep
      else (case Split cs sep of [] \<Rightarrow> [[c]] | p # ps \<Rightarrow> (c # p) # ps))"

text \<open>\<open>strings.Join\<close>.\<close>

fun Join :: "string list \<Rightarrow> string \<Rightarrow> string" where
  "Join [] sep = []"
| "Join [p] sep = p"
| "Join (p # q # ps) sep = p @ sep @ Join (q # ps) sep"

text \<open>
  \<open>strings.ToLower\<close>, as far as a search for an ASCII text in its result can tell: an
  ASCII capital becomes its small letter, and so do the two runes outside ASCII whose
  lower case is an ASCII letter, U+0130 (bytes C4 B0, to \<open>i\<close>) and U+212A (bytes E2 84
  AA, to \<open>k\<close>). Every other byte above 0x7F is kept, where Go writes the encoding of the
  rune's lower case or of U+FFFD, which has no ASCII byte either.
\<close>

definition lower_byte :: "char \<Rightarrow> char" where
  "lower_byte c =
     (let n = (of_char c :: nat) in if 65 \<le> n \<and> n \<le> 90 then char_of (n + 32) else c)"

function ToLower :: "string \<Rightarrow> string" where
  "ToLower s =
     (case s of
        [] \<Rightarrow> []
      | c # cs \<Rightarrow>
          if prefix [CHR 0xC4, CHR 0xB0] s then CHR ''i'' # ToLower (drop 2 s)
          else if prefix [CHR 0xE2, CHR 0x84, CHR 0xAA] s then CHR ''k'' # ToLower (drop 3 s)
          else lower_byte c # ToLower cs)"
  by pat_completeness auto
termination
  by (relation "measure length") auto

declare ToLower.simps [simp del]

section \<open>Errors and external commands\<close>

text \<open>
  The error values of \<open>main.go\<close>, one constructor for each place that makes one. The
  texts of the messages are not reproduced; what a message is built from is kept.
  \<open>cmd.Output()\<close> gives \<open>*exec.ExitError\<close> when the process ran and exited with a status
  other than 0, with the text of its standard error in the field \<open>Stderr\<close>, and an error of
  another type when the process could not be run at all (\<open>*exec.Error\<close> when the
  executable is not found).
\<close>

datatype error =
    ExitError string string
      \<comment> \<open>\<open>*exec.ExitError\<close>: the text of the process state, the field \<open>Stderr\<close>\<close>
  | OtherError string
      \<comment> \<open>an error of any other type, by its text\<close>
  | InvalidRepoURL string
      \<comment> \<open>line 294, with the normalized URL\<close>
  | NotLoggedIn
      \<comment> \<open>line 311\<close>
  | RemoteUnreadable
      \<comment> \<open>line 322\<close>
  | PlatformNotDetected
      \<comment> \<open>line 333\<close>
  | ExecFailed string error string
      \<comment> \<open>lines 92, 125 and 184: the command, the error wrapped by \<open>%w\<close>, the text
         printed after \<open>Stderr:\<close>\<close>

text \<open>What \<open>cmd.Output()\<close> returns: the bytes of standard output and the error, if any.\<close>

type_synonym cmd_output = "string \<times> error option"

section \<open>The remote URL: \<open>getGitRepoDetails\<close> and \<open>detectPlatform\<close>\<close>

text \<open>Lines 280 to 290 of \<open>getGitRepoDetails\<close>: the URL brought to the form
  \<open>host/path\<close>.\<close>

definition normalize_url :: "string \<Rightarrow> string" where
  "normalize_url out =
     (let url = TrimSpace out in
      if HasPrefix url ''git@'' then
        TrimSuffix (TrimPrefix (ReplaceFirst url CHR '':'' ''/'') ''git@'') ''.git''
      else if HasPrefix url ''https://'' then
        TrimSuffix (TrimPrefix url ''https://'') ''.git''
      else url)"

text \<open>\<open>getGitRepoDetails\<close> (lines 271 to 303), from the result of
  \<open>git config --get remote.origin.url\<close>. The three indices are read after the test
  of line 293, where \<open>parts\<close> has three elements or more.\<close>

definition getGitRepoDetails :: "cmd_output \<Rightarrow> string \<times> string \<times> error option" where
  "getGitRepoDetails res =
     (case snd res of
        Some err \<Rightarrow> ('''', '''', Some err)
      | None \<Rightarrow>
          (let url = normalize_url (fst res);
               parts = Split url CHR ''/''
           in if length parts < 3 then ('''', '''', Some (InvalidRepoURL url))
              else if Contains (parts ! 0) ''github.com'' then (parts ! 1, parts ! 2, None)
              else (Join (drop 1 parts) ''/'', '''', None)))"

text \<open>\<open>detectPlatform\<close> (lines 316 to 334), from the result of the same command.\<close>

definition detectPlatform :: "cmd_output \<Rightarrow> string \<times> error option" where
  "detectPlatform res =
     (case snd res of
        Some err \<Rightarrow> ('''', Some RemoteUnreadable)
      | None \<Rightarrow>
          (let url = ToLower (fst res)
           in if Contains url ''github.com'' then (''github'', None)
              else if Contains url ''gitlab.com'' then (''gitlab'', None)
              else ('''', Some PlatformNotDetected)))"

section \<open>More of package \<open>strings\<close>, and \<open>strconv.Atoi\<close>\<close>

text \<open>
  \<open>strings.Fields\<close>: the maximal runs of bytes between white space runes, in order. The
  scan keeps the field being read (\<open>cur\<close>, empty when between fields, where Go keeps
  its start index) and steps over a white space rune by its width, over any other byte
  by one: the bytes after the first of a rune that is not white space are continuation
  bytes, and no white space encoding starts with one.
\<close>

function fields_scan :: "string \<Rightarrow> string \<Rightarrow> string list" where
  "fields_scan cur s =
     (if s = [] then (if cur = [] then [] else [cur])
      else if space_len s = 0 then fields_scan (cur @ [hd s]) (tl s)
      else (if cur = [] then [] else [cur]) @ fields_scan [] (drop (space_len s) s))"
  by pat_completeness auto
termination
proof (relation "measure (\<lambda>(cur, s). length s)")
  show "wf (measure (\<lambda>(cur, s). length s))" by simp
next
  fix cur s :: string
  assume "s \<noteq> []"
  then show "((cur @ [hd s], tl s), (cur, s)) \<in> measure (\<lambda>(cur, s). length s)" by simp
next
  fix cur s :: string
  assume "s \<noteq> []" and "space_len s \<noteq> 0"
  then show "(([], drop (space_len s) s), (cur, s)) \<in> measure (\<lambda>(cur, s). length s)" by simp
qed

declare fields_scan.simps [simp del]

definition Fields :: "string \<Rightarrow> string list" where
  "Fields s = fields_scan [] s"

text \<open>\<open>strings.LastIndex(s, sep)\<close> for a one-byte \<open>sep\<close>: the index of its last
  occurrence, -1 when there is none. The bytes are read from the back, as Go does: those
  passed before \<open>sep\<close> is met are the ones after its last occurrence.\<close>

definition LastIndex :: "string \<Rightarrow> char \<Rightarrow> int" where
  "LastIndex s c =
     (if c \<in> set s then int (length s) - 1 - int (length (takeWhile (\<lambda>x. x \<noteq> c) (rev s)))
      else -1)"

text \<open>
  \<open>strconv.Atoi\<close> where \<open>int\<close> has 64 bits: an optional sign, then one or more decimal
  digits and nothing else, the value within the range of \<open>int\<close>. Any other text gives
  a \<open>*strconv.NumError\<close>; the number returned with it is left out, \<open>main.go\<close> does not
  read it.
\<close>

datatype num_error = NumError string

definition is_digit :: "char \<Rightarrow> bool" where
  "is_digit c = (48 \<le> (of_char c :: nat) \<and> (of_char c :: nat) \<le> 57)"

definition digits_value :: "string \<Rightarrow> int" where
  "digits_value ds = foldl (\<lambda>n c. n * 10 + (of_char c - 48)) 0 ds"

definition Atoi :: "string \<Rightarrow> num_error + int" where
  "Atoi s =
     (let neg = HasPrefix s ''-'';
          ds = (if HasPrefix s ''-'' \<or> HasPrefix s ''+'' then drop 1 s else s);
          n = digits_value ds
      in if ds = [] \<or> \<not> list_all is_digit ds then Inl (NumError s)
         else if neg then (if n \<le> 2 ^ 63 then Inr (- n) else Inl (NumError s))
         else (if n < 2 ^ 63 then Inr n else Inl (NumError s)))"

section \<open>Run-time panics\<close>

text \<open>
  An index or a slice bound out of range and a failed type assertion stop a Go program
  with a run-time panic. The operations that can do so are written with their checks, and
  a function that uses one returns \<open>Inl\<close> of the panic or \<open>Inr\<close> of its result.
\<close>

datatype panic = IndexOutOfRange | SliceBoundsOutOfRange | InterfaceConversion

text \<open>\<open>xs[i]\<close>, \<open>xs[i:]\<close> and \<open>xs[:j]\<close>.\<close>

definition index :: "'a list \<Rightarrow> int \<Rightarrow> panic + 'a" where
  "index xs i = (if 0 \<le> i \<and> i < int (length xs) then Inr (xs ! nat i) else Inl IndexOutOfRange)"

definition slice_from :: "'a list \<Rightarrow> int \<Rightarrow> panic + 'a list" where
  "slice_from xs i =
     (if 0 \<le> i \<and> i \<le> int (length xs) then Inr (drop (nat i) xs) else Inl SliceBoundsOutOfRange)"

definition slice_to :: "'a list \<Rightarrow> int \<Rightarrow> panic + 'a list" where
  "slice_to xs j =
     (if 0 \<le> j \<and> j \<le> int (length xs) then Inr (take (nat j) xs) else Inl SliceBoundsOutOfRange)"

section \<open>The record \<open>Review\<close>\<close>

record Review =
  ID :: int
  Number :: int
  Title :: string
  Body :: string
  AuthorLogin :: string
  AuthorName :: string
  DiffURL :: string
  NumberGH :: int

section \<open>\<open>GitLabReviewer.ListReviews\<close>: the text of \<open>glab mr list\<close>\<close>

text \<open>
  What one turn of the loop of lines 130 to 174 does with its line: \<open>continue\<close> without a
  word, \<open>continue\<close> after the warning of line 146 (the trimmed line and the error), or a
  \<open>Review\<close> appended.
\<close>

datatype line_result = Skipped | Warned string num_error | Parsed Review

text \<open>The \<open>Review\<close> of lines 166 to 173: the fields not named there are zero.\<close>

definition text_review :: "int \<Rightarrow> string \<Rightarrow> Review" where
  "text_review iid title =
     \<lparr>ID = 0, Number = iid, Title = title, Body = '''', AuthorLogin = '''', AuthorName = '''',
      DiffURL = '''', NumberGH = 0\<rparr>"

definition parse_line :: "string \<Rightarrow> panic + line_result" where
  "parse_line raw =
     (let line = TrimSpace raw in
      if line = '''' \<or> HasPrefix line ''Showing'' \<or> HasPrefix line ''!'' = False then Inr Skipped
      else
        let parts = Fields line in
        if length parts < 4 then Inr Skipped
        else
          case index parts 0 of
            Inl p \<Rightarrow> Inl p
          | Inr part0 \<Rightarrow>
              (case Atoi (TrimPrefix part0 ''!'') of
                 Inl err \<Rightarrow> Inr (Warned line err)
               | Inr iid \<Rightarrow>
                   (case slice_from parts 2 of
                      Inl p \<Rightarrow> Inl p
                    | Inr titleParts \<Rightarrow>
                        let title = Join titleParts '' '';
                            branchStart = LastIndex title CHR ''('';
                            branchEnd = LastIndex title CHR '')''
                        in if branchStart \<noteq> -1 \<and> branchEnd \<noteq> -1 \<and> branchEnd > branchStart then
                             (case slice_to title branchStart of
                                Inl p \<Rightarrow> Inl p
                              | Inr t \<Rightarrow> Inr (Parsed (text_review iid (TrimSpace t))))
                           else Inr (Parsed (text_review iid title)))))"

text \<open>The loop: the reviews appended so far and the warnings logged so far.\<close>

fun parse_lines ::
  "string list \<Rightarrow> Review list \<Rightarrow> (string \<times> num_error) list \<Rightarrow>
     panic + Review list \<times> (string \<times> num_error) list" where
  "parse_lines [] reviews warnings = Inr (reviews, warnings)"
| "parse_lines (raw # raws) reviews warnings =
     (case parse_line raw of
        Inl p \<Rightarrow> Inl p
      | Inr Skipped \<Rightarrow> parse_lines raws reviews warnings
      | Inr (Warned line err) \<Rightarrow> parse_lines raws reviews (warnings @ [(line, err)])
      | Inr (Parsed r) \<Rightarrow> parse_lines raws (reviews @ [r]) warnings)"

text \<open>Lines 128 to 175: the output of the command split at line feeds and parsed.\<close>

definition parse_reviews :: "string \<Rightarrow> panic + Review list \<times> (string \<times> num_error) list" where
  "parse_reviews out = parse_lines (Split out CHR 0x0A) [] []"

section \<open>The world outside: commands, the GitHub client, the prompt\<close>

text \<open>
  What the program asks of the world, as functions of the question: the result of
  \<open>exec.Command(argv...).Output()\<close>, the result of \<open>PullRequests.List\<close> for a token, an
  owner and a repository, and the index and error that \<open>prompt.Run()\<close> returns for the
  items shown.
\<close>

record pull =
  pull_id :: int
  pull_number :: int
  pull_title :: string
  pull_body :: string
  pull_login :: string
  pull_diff_url :: string

record env =
  run :: "string list \<Rightarrow> cmd_output"
  pulls :: "string \<Rightarrow> string \<Rightarrow> string \<Rightarrow> pull list \<times> error option"
  prompt_run :: "string list \<Rightarrow> int \<times> error option"

text \<open>The two implementations of \<open>CodeReviewer\<close>: the client (its token), owner and
  repository of lines 41 to 45, the project path of lines 106 to 108.\<close>

datatype reviewer = GitHubReviewer string string string | GitLabReviewer string

text \<open>What \<open>generateAgentPrompt\<close> puts into its template, in the order of the verbs
  (the platform name fills five of them); the text of the template is not reproduced.\<close>

record prompt =
  prompt_platform :: string
  prompt_number :: int
  prompt_title :: string
  prompt_author :: string
  prompt_body :: string
  prompt_diff :: string

text \<open>What is written to the terminal, by the line that writes it.\<close>

datatype message =
    Detecting \<comment> \<open>line 199\<close>
  | GitHubDetected \<comment> \<open>line 209\<close>
  | GitLabDetected \<comment> \<open>line 212\<close>
  | NoOpenReviews \<comment> \<open>line 228\<close>
  | PromptFailed error \<comment> \<open>line 249\<close>
  | PromptHeader \<comment> \<open>line 265\<close>
  | PromptText prompt \<comment> \<open>line 266\<close>
  | PromptFooter \<comment> \<open>line 267\<close>

text \<open>The steps of a run that the world sees: a command run, the pull requests
  listed, the prompt shown with its items, a message printed, the warning of line 146.\<close>

datatype event =
    Exec "string list"
  | ListPulls string string
  | Select "string list"
  | Say message
  | LogWarning string num_error

text \<open>How a run ends: \<open>main\<close> returns, \<open>log.Fatalf\<close> ends the process (by the line that
  calls it), or a panic does.\<close>

datatype fatal =
    FatalDetect error \<comment> \<open>line 203\<close>
  | FatalUnsupported \<comment> \<open>line 215\<close>
  | FatalInit string error \<comment> \<open>line 219\<close>
  | FatalList error \<comment> \<open>line 224\<close>
  | FatalDiff error \<comment> \<open>line 261\<close>

datatype exit = Returned | Fatal fatal | Panicked panic

text \<open>\<open>fmt.Sprintf("%d", n)\<close>.\<close>

function itoa_nat :: "nat \<Rightarrow> string" where
  "itoa_nat n = (if n < 10 then [char_of (48 + n)] else itoa_nat (n div 10) @ [char_of (48 + n mod 10)])"
  by pat_completeness auto
termination
  by (relation "measure id") auto

declare itoa_nat.simps [simp del]

definition Itoa :: "int \<Rightarrow> string" where
  "Itoa i = (if i < 0 then ''-'' @ itoa_nat (nat (- i)) else itoa_nat (nat i))"

section \<open>The reviewers\<close>

definition git_remote_cmd :: "string list" where
  "git_remote_cmd = [''git'', ''config'', ''--get'', ''remote.origin.url'']"

text \<open>\<open>getGitHubToken\<close> (lines 305 to 314), from the result of \<open>gh auth token\<close>.\<close>

definition getGitHubToken :: "cmd_output \<Rightarrow> string \<times> error option" where
  "getGitHubToken res =
     (case snd res of
        Some err \<Rightarrow> ('''', Some NotLoggedIn)
      | None \<Rightarrow> (TrimSpace (fst res), None))"

text \<open>\<open>NewGitHubReviewer\<close> (lines 47 to 63) and \<open>NewGitLabReviewer\<close> (lines 110 to 116):
  the commands run, and the error or the reviewer.\<close>

definition NewGitHubReviewer :: "env \<Rightarrow> event list \<times> (error + reviewer)" where
  "NewGitHubReviewer e =
     (case getGitHubToken (run e [''gh'', ''auth'', ''token'']) of
        (token, Some err) \<Rightarrow> ([Exec [''gh'', ''auth'', ''token'']], Inl err)
      | (token, None) \<Rightarrow>
          (case getGitRepoDetails (run e git_remote_cmd) of
             (owner, repo, Some err) \<Rightarrow>
               ([Exec [''gh'', ''auth'', ''token''], Exec git_remote_cmd], Inl err)
           | (owner, repo, None) \<Rightarrow>
               ([Exec [''gh'', ''auth'', ''token''], Exec git_remote_cmd],
                Inr (GitHubReviewer token owner repo))))"

definition NewGitLabReviewer :: "env \<Rightarrow> event list \<times> (error + reviewer)" where
  "NewGitLabReviewer e =
     (case getGitRepoDetails (run e git_remote_cmd) of
        (projectPath, repo, Some err) \<Rightarrow> ([Exec git_remote_cmd], Inl err)
      | (projectPath, repo, None) \<Rightarrow> ([Exec git_remote_cmd], Inr (GitLabReviewer projectPath)))"

text \<open>
  The error returned when a command fails (lines 92, 125 and 184). The second argument of
  \<open>fmt.Errorf\<close> is \<open>err.(*exec.ExitError).Stderr\<close>: a type assertion with no \<open>ok\<close>
  result, which panics when the error is of another type.
\<close>

definition exec_failed :: "string \<Rightarrow> error \<Rightarrow> panic + error" where
  "exec_failed cmd err =
     (case err of
        ExitError state stderr \<Rightarrow> Inr (ExecFailed cmd err stderr)
      | _ \<Rightarrow> Inl InterfaceConversion)"

text \<open>\<open>ListReviews\<close> (lines 65 to 84 and 118 to 176).\<close>

definition review_of_pull :: "pull \<Rightarrow> Review" where
  "review_of_pull pr =
     \<lparr>ID = pull_id pr, Number = pull_number pr, Title = pull_title pr, Body = pull_body pr,
      AuthorLogin = pull_login pr, AuthorName = '''', DiffURL = pull_diff_url pr,
      NumberGH = pull_number pr\<rparr>"

fun ListReviews :: "env \<Rightarrow> reviewer \<Rightarrow> event list \<times> (panic + Review list \<times> error option)" where
  "ListReviews e (GitHubReviewer token owner repo) =
     (case pulls e token owner repo of
        (prs, Some err) \<Rightarrow> ([ListPulls owner repo], Inr ([], Some err))
      | (prs, None) \<Rightarrow> ([ListPulls owner repo], Inr (map review_of_pull prs, None)))"
| "ListReviews e (GitLabReviewer projectPath) =
     (case run e [''glab'', ''mr'', ''list'', ''--repo'', projectPath] of
        (out, Some err) \<Rightarrow>
          (case exec_failed ''glab mr list'' err of
             Inl p \<Rightarrow> ([Exec [''glab'', ''mr'', ''list'', ''--repo'', projectPath]], Inl p)
           | Inr err' \<Rightarrow>
               ([Exec [''glab'', ''mr'', ''list'', ''--repo'', projectPath]], Inr ([], Some err')))
      | (out, None) \<Rightarrow>
          (case parse_reviews out of
             Inl p \<Rightarrow> ([Exec [''glab'', ''mr'', ''list'', ''--repo'', projectPath]], Inl p)
           | Inr (reviews, warnings) \<Rightarrow>
               (Exec [''glab'', ''mr'', ''list'', ''--repo'', projectPath] #
                  map (\<lambda>(line, err). LogWarning line err) warnings,
                Inr (reviews, None))))"

text \<open>\<open>GetDiff\<close> (lines 86 to 95 and 178 to 187).\<close>

definition diff_cmd :: "reviewer \<Rightarrow> int \<Rightarrow> string \<Rightarrow> string list" where
  "diff_cmd r reviewNumber repoPath =
     (case r of
        GitHubReviewer token owner repo \<Rightarrow> [''gh'', ''pr'', ''diff'', Itoa reviewNumber, ''--repo'', repoPath]
      | GitLabReviewer projectPath \<Rightarrow> [''glab'', ''mr'', ''diff'', Itoa reviewNumber, ''--repo'', repoPath])"

definition diff_cmd_name :: "reviewer \<Rightarrow> string" where
  "diff_cmd_name r =
     (case r of GitHubReviewer token owner repo \<Rightarrow> ''gh pr diff''
      | GitLabReviewer projectPath \<Rightarrow> ''glab mr diff'')"

definition GetDiff ::
  "env \<Rightarrow> reviewer \<Rightarrow> int \<Rightarrow> string \<Rightarrow> event list \<times> (panic + string \<times> error option)" where
  "GetDiff e r reviewNumber repoPath =
     (case run e (diff_cmd r reviewNumber repoPath) of
        (out, Some err) \<Rightarrow>
          (case exec_failed (diff_cmd_name r) err of
             Inl p \<Rightarrow> ([Exec (diff_cmd r reviewNumber repoPath)], Inl p)
           | Inr err' \<Rightarrow> ([Exec (diff_cmd r reviewNumber repoPath)], Inr ('''', Some err')))
      | (out, None) \<Rightarrow> ([Exec (diff_cmd r reviewNumber repoPath)], Inr (out, None)))"

definition PlatformName :: "reviewer \<Rightarrow> string" where
  "PlatformName r =
     (case r of GitHubReviewer token owner repo \<Rightarrow> ''GitHub Pull Request''
      | GitLabReviewer projectPath \<Rightarrow> ''GitLab Merge Request'')"

definition GetRepoPath :: "reviewer \<Rightarrow> string" where
  "GetRepoPath r =
     (case r of GitHubReviewer token owner repo \<Rightarrow> owner @ ''/'' @ repo
      | GitLabReviewer projectPath \<Rightarrow> projectPath)"

section \<open>\<open>generateAgentPrompt\<close> and \<open>main\<close>\<close>

definition generateAgentPrompt :: "Review \<Rightarrow> string \<Rightarrow> string \<Rightarrow> string \<Rightarrow> prompt" where
  "generateAgentPrompt review diff platformName platform =
     \<lparr>prompt_platform = platformName,
      prompt_number = (if platform = ''github'' then NumberGH review else Number review),
      prompt_title = Title review,
      prompt_author = (if platform = ''github'' then AuthorLogin review else AuthorName review),
      prompt_body = Body review,
      prompt_diff = diff\<rparr>"

text \<open>The number shown for a review (lines 235 to 238 and 254 to 257).\<close>

definition shown_number :: "string \<Rightarrow> Review \<Rightarrow> int" where
  "shown_number platform r = (if platform = ''github'' then NumberGH r else Number r)"

text \<open>Lines 227 to 267 of \<open>main\<close>: what follows a listing that succeeded, after the
  events \<open>t\<close>.\<close>

definition main_listed ::
  "env \<Rightarrow> string \<Rightarrow> reviewer \<Rightarrow> event list \<Rightarrow> Review list \<Rightarrow> event list \<times> exit" where
  "main_listed e platform r t reviews =
     (if length reviews = 0 then (t @ [Say NoOpenReviews], Returned)
      else
        let promptItems =
              map (\<lambda>rv. ''#'' @ Itoa (shown_number platform rv) @ '': '' @ Title rv) reviews
        in case prompt_run e promptItems of
             (selectedIndex, Some err) \<Rightarrow> (t @ [Select promptItems, Say (PromptFailed err)], Returned)
           | (selectedIndex, None) \<Rightarrow>
               (case index reviews selectedIndex of
                  Inl p \<Rightarrow> (t @ [Select promptItems], Panicked p)
                | Inr selectedReview \<Rightarrow>
                    (case GetDiff e r (shown_number platform selectedReview) (GetRepoPath r) of
                       (evs, Inl p) \<Rightarrow> (t @ [Select promptItems] @ evs, Panicked p)
                     | (evs, Inr (diff, Some err)) \<Rightarrow>
                         (t @ [Select promptItems] @ evs, Fatal (FatalDiff err))
                     | (evs, Inr (diff, None)) \<Rightarrow>
                         (t @ [Select promptItems] @ evs @
                            [Say PromptHeader,
                             Say (PromptText (generateAgentPrompt selectedReview diff
                                                (PlatformName r) platform)),
                             Say PromptFooter],
                          Returned))))"

text \<open>Lines 218 to 225: the reviewer made or not, then the listing.\<close>

definition main_init ::
  "env \<Rightarrow> string \<Rightarrow> event list \<Rightarrow> event list \<times> (error + reviewer) \<Rightarrow> event list \<times> exit" where
  "main_init e platform t made =
     (case made of
        (evs, Inl err) \<Rightarrow> (t @ evs, Fatal (FatalInit platform err))
      | (evs, Inr r) \<Rightarrow>
          (case ListReviews e r of
             (evs', Inl p) \<Rightarrow> (t @ evs @ evs', Panicked p)
           | (evs', Inr (reviews, Some err)) \<Rightarrow> (t @ evs @ evs', Fatal (FatalList err))
           | (evs', Inr (reviews, None)) \<Rightarrow> main_listed e platform r (t @ evs @ evs') reviews))"

text \<open>\<open>main\<close> (lines 198 to 268): the events of the run and its end.\<close>

definition main :: "env \<Rightarrow> event list \<times> exit" where
  "main e =
     (case detectPlatform (run e git_remote_cmd) of
        (platform, Some err) \<Rightarrow> ([Say Detecting, Exec git_remote_cmd], Fatal (FatalDetect err))
      | (platform, None) \<Rightarrow>
          if platform = ''github'' then
            main_init e platform [Say Detecting, Exec git_remote_cmd, Say GitHubDetected]
              (NewGitHubReviewer e)
          else if platform = ''gitlab'' then
            main_init e platform [Say Detecting, Exec git_remote_cmd, Say GitLabDetected]
              (NewGitLabReviewer e)
          else ([Say Detecting, Exec git_remote_cmd], Fatal FatalUnsupported))"

section \<open>Two example worlds\<close>

text \<open>A GitLab project with no open merge request: \<open>glab mr list\<close> prints one line
  that is no merge request.\<close>

definition world_no_reviews :: env where
  "world_no_reviews =
     \<lparr>run = (\<lambda>argv.
        if argv = git_remote_cmd then (''https://gitlab.com/acme/widgets.git'' @ [CHR 0x0A], None)
        else if argv = [''glab'', ''mr'', ''list'', ''--repo'', ''acme/widgets''] then
          (''No open merge requests match your search in acme/widgets'' @ [CHR 0x0A], None)
        else ('''', Some (OtherError ''not run''))),
      pulls = (\<lambda>token owner repo. ([], None)),
      prompt_run = (\<lambda>items. (0, None))\<rparr>"

text \<open>A GitLab project with one open merge request, in which the listing succeeds and
  the first item is chosen, but the command for the diff cannot be started:
  \<open>cmd.Output()\<close> returns the \<open>*fs.PathError\<close> of \<open>fork/exec\<close>, which is no
  \<open>*exec.ExitError\<close>.\<close>

definition world_diff_not_started :: env where
  "world_diff_not_started =
     \<lparr>run = (\<lambda>argv.
        if argv = git_remote_cmd then (''https://gitlab.com/acme/widgets.git'' @ [CHR 0x0A], None)
        else if argv = [''glab'', ''mr'', ''list'', ''--repo'', ''acme/widgets''] then
          (''!7 acme/widgets Refactor parser (refactor)'' @ [CHR 0x0A], None)
        else ('''', Some (OtherError ''fork/exec: resource temporarily unavailable''))),
      pulls = (\<lambda>token owner repo. ([], None)),
      prompt_run = (\<lambda>items. (0, None))\<rparr>"

chapter \<open>Properties\<close>

section \<open>Facts about the string functions\<close>

lemma TrimLeftSpace_id: "space_len s = 0 \<Longrightarrow> TrimLeftSpace s = s"
  by (simp add: TrimLeftSpace.simps)

lemma TrimRightSpace_id: "space_len_end s = 0 \<Longrightarrow> TrimRightSpace s = s"
  by (simp add: TrimRightSpace.simps)

lemma TrimSpace_id: "space_len s = 0 \<Longrightarrow> space_len_end s = 0 \<Longrightarrow> TrimSpace s = s"
  by (simp add: TrimSpace_def TrimLeftSpace_id TrimRightSpace_id)

lemma space_len_git: "space_len (CHR ''g'' # cs) = 0"
  by (simp add: space_len_def unicode_spaces_def)

lemma space_len_end_git: "space_len_end (s @ ''.git'') = 0"
  by (simp add: space_len_end_def unicode_spaces_def suffix_to_prefix)

lemma Contains_sublist: "Contains s sub \<longleftrightarrow> sublist sub s"
  by (induction s) (simp_all add: sublist_Cons_right)

lemma TrimLeftSpace_suffix: "suffix (TrimLeftSpace s) s"
proof (induction s rule: TrimLeftSpace.induct)
  case (1 s)
  show ?case
  proof (cases "space_len s = 0")
    case True
    then show ?thesis by (simp add: TrimLeftSpace.simps)
  next
    case False
    with 1 have "suffix (TrimLeftSpace (drop (space_len s) s)) (drop (space_len s) s)" by simp
    then have "suffix (TrimLeftSpace (drop (space_len s) s)) s"
      using suffix_drop suffix_order.trans by blast
    with False show ?thesis by (simp add: TrimLeftSpace.simps)
  qed
qed

lemma TrimRightSpace_prefix: "prefix (TrimRightSpace s) s"
proof (induction s rule: TrimRightSpace.induct)
  case (1 s)
  show ?case
  proof (cases "space_len_end s = 0")
    case True
    then show ?thesis by (simp add: TrimRightSpace.simps)
  next
    case False
    with 1 have "prefix (TrimRightSpace (take (length s - space_len_end s) s))
        (take (length s - space_len_end s) s)" by simp
    then have "prefix (TrimRightSpace (take (length s - space_len_end s) s)) s"
      using take_is_prefix prefix_order.trans by blast
    with False show ?thesis by (simp add: TrimRightSpace.simps)
  qed
qed

lemma TrimSpace_sublist: "sublist (TrimSpace s) s"
  unfolding TrimSpace_def
  using TrimLeftSpace_suffix [of s] TrimRightSpace_prefix [of "TrimLeftSpace s"]
  by (blast intro: sublist_order.order_trans prefix_imp_sublist suffix_imp_sublist)

lemma TrimPrefix_sublist: "sublist (TrimPrefix s p) s"
  by (simp add: TrimPrefix_def)

lemma TrimSuffix_sublist: "sublist (TrimSuffix s p) s"
  by (simp add: TrimSuffix_def)

lemma sublist_avoid:
  assumes "sublist xs (a @ c # b)" and "c \<notin> set xs"
  shows "sublist xs a \<or> sublist xs b"
  using assms by (auto simp: sublist_append sublist_Cons_right prefix_Cons)

lemma ReplaceFirst_first: "old \<notin> set a \<Longrightarrow> ReplaceFirst (a @ old # b) old new = a @ new @ b"
  by (induction a) auto

lemma ReplaceFirst_none: "old \<notin> set s \<Longrightarrow> ReplaceFirst s old new = s"
  by (induction s) auto

lemma ReplaceFirst_sublist:
  assumes "sublist sub (ReplaceFirst s old [c])" and "c \<notin> set sub"
  shows "sublist sub s"
proof (cases "old \<in> set s")
  case False
  with assms show ?thesis by (simp add: ReplaceFirst_none)
next
  case True
  then obtain a b where s: "s = a @ old # b" and a: "old \<notin> set a"
    by (meson split_list_first)
  from assms(1) have "sublist sub (a @ c # b)"
    unfolding s by (simp add: ReplaceFirst_first [OF a])
  from this assms(2) have "sublist sub a \<or> sublist sub b" by (rule sublist_avoid)
  then show ?thesis
  proof
    assume "sublist sub a"
    then show ?thesis unfolding s by (simp add: sublist_append)
  next
    assume "sublist sub b"
    then have "sublist sub (old # b)" by (simp add: sublist_Cons_right)
    then show ?thesis unfolding s by (simp add: sublist_append)
  qed
qed

lemma Split_nonempty: "Split s sep \<noteq> []"
  by (induction s) (auto split: list.splits)

lemma Split_hd: "Split s sep ! 0 = takeWhile (\<lambda>c. c \<noteq> sep) s"
  using Split_nonempty [of _ sep]
  by (induction s) (auto split: list.splits)

lemma normalize_url_host_sublist:
  assumes "sublist sub (Split (normalize_url out) CHR ''/'' ! 0)" and "CHR ''/'' \<notin> set sub"
  shows "sublist sub out"
proof -
  let ?url = "TrimSpace out"
  from assms(1) have n: "sublist sub (normalize_url out)"
    unfolding Split_hd by (rule sublist_order.order_trans [OF _ sublist_takeWhile])
  have "sublist sub ?url"
  proof (cases "HasPrefix ?url ''git@''")
    case True
    then have "normalize_url out =
        TrimSuffix (TrimPrefix (ReplaceFirst ?url CHR '':'' ''/'') ''git@'') ''.git''"
      by (simp add: normalize_url_def)
    with n have "sublist sub (ReplaceFirst ?url CHR '':'' ''/'')"
      using sublist_order.order_trans [OF sublist_order.order_trans [OF _ TrimSuffix_sublist] TrimPrefix_sublist]
      by simp
    then show ?thesis using assms(2) by (rule ReplaceFirst_sublist)
  next
    case False
    show ?thesis
    proof (cases "HasPrefix ?url ''https://''")
      case True
      with False have "normalize_url out = TrimSuffix (TrimPrefix ?url ''https://'') ''.git''"
        by (simp add: normalize_url_def)
      with n show ?thesis
        using sublist_order.order_trans [OF sublist_order.order_trans [OF _ TrimSuffix_sublist] TrimPrefix_sublist]
        by simp
    next
      case h: False
      with False have "normalize_url out = ?url" by (simp add: normalize_url_def)
      with n show ?thesis by simp
    qed
  qed
  then show ?thesis by (rule sublist_order.order_trans [OF _ TrimSpace_sublist])
qed

lemma LastIndex_none: "c \<notin> set s \<Longrightarrow> LastIndex s c = -1"
  by (simp add: LastIndex_def)

lemma LastIndex_last:
  assumes "c \<notin> set post"
  shows "LastIndex (pre @ c # post) c = int (length pre)"
proof -
  have "takeWhile (\<lambda>x. x \<noteq> c) (rev post @ c # rev pre) = rev post"
    using assms by (subst takeWhile_append2) auto
  then show ?thesis by (simp add: LastIndex_def)
qed

lemma LastIndex_range: "- 1 \<le> LastIndex s c \<and> LastIndex s c < int (length s)"
proof (cases "c \<in> set s")
  case False
  then show ?thesis by (simp add: LastIndex_def)
next
  case True
  have "length (takeWhile (\<lambda>x. x \<noteq> c) (rev s)) \<le> length s"
    using length_takeWhile_le [of _ "rev s"] by simp
  moreover from True have "s \<noteq> []" by auto
  ultimately show ?thesis using True by (simp add: LastIndex_def)
qed

lemma LastIndex_split:
  assumes "c \<in> set s"
  shows "\<exists>pre post. s = pre @ c # post \<and> c \<notin> set post \<and> LastIndex s c = int (length pre)"
proof -
  from assms obtain pre post where s: "s = pre @ c # post" and p: "c \<notin> set post"
    by (meson split_list_last)
  with LastIndex_last [OF p, of pre] show ?thesis by blast
qed

lemma LastIndex_after:
  assumes "c \<in> set post"
  shows "int (length pre) \<le> LastIndex (pre @ post) c"
proof -
  from assms obtain a b where post: "post = a @ c # b" and b: "c \<notin> set b"
    by (meson split_list_last)
  have "LastIndex ((pre @ a) @ c # b) c = int (length (pre @ a))"
    using b by (rule LastIndex_last)
  then show ?thesis unfolding post by simp
qed

lemma LastIndex_before:
  assumes "c \<notin> set post" and "c \<in> set pre"
  shows "LastIndex (pre @ post) c < int (length pre)"
proof -
  from assms(2) obtain a b where pre: "pre = a @ c # b" and b: "c \<notin> set b"
    by (meson split_list_last)
  have "LastIndex (a @ c # (b @ post)) c = int (length a)"
    using b assms(1) by (intro LastIndex_last) simp
  then show ?thesis unfolding pre by simp
qed

lemma unicode_spaces_nonempty: "e \<in> set unicode_spaces \<Longrightarrow> e \<noteq> []"
  by (auto simp: unicode_spaces_def)

lemma unicode_spaces_tail: "e \<in> set unicode_spaces \<Longrightarrow> CHR 0x20 \<notin> set (tl e)"
  by (auto simp: unicode_spaces_def)

lemma space_len_nonzero: "space_len s \<noteq> 0 \<longleftrightarrow> (\<exists>e \<in> set unicode_spaces. prefix e s)"
  by (auto simp: space_len_def find_None_iff find_Some_iff unicode_spaces_nonempty
      split: option.splits)

lemma space_len_prefix: "prefix a b \<Longrightarrow> space_len b = 0 \<Longrightarrow> space_len a = 0"
  using space_len_nonzero prefix_order.trans by blast

lemma fields_scan_tokens:
  "cur = [] \<or> space_len (cur @ s) = 0 \<Longrightarrow> t \<in> set (fields_scan cur s) \<Longrightarrow>
     t \<noteq> [] \<and> space_len t = 0"
proof (induction cur s rule: fields_scan.induct)
  case (1 cur s)
  show ?case
  proof (cases "s = []")
    case True
    with "1.prems" show ?thesis
      by (auto simp: fields_scan.simps [of _ "[]"] split: if_splits)
  next
    case ne: False
    show ?thesis
    proof (cases "space_len s = 0")
      case True
      have eq: "(cur @ [hd s]) @ tl s = cur @ s" using ne by simp
      have inv: "cur @ [hd s] = [] \<or> space_len ((cur @ [hd s]) @ tl s) = 0"
        unfolding eq using "1.prems"(1) True by auto
      from "1.prems"(2) ne True have "t \<in> set (fields_scan (cur @ [hd s]) (tl s))"
        by (simp add: fields_scan.simps [of cur s])
      with "1.IH"(1) [OF ne True inv] show ?thesis .
    next
      case False
      from "1.prems"(2) ne False
      have "t \<in> set (if cur = [] then [] else [cur]) \<or> t \<in> set (fields_scan [] (drop (space_len s) s))"
        by (simp add: fields_scan.simps [of cur s])
      then show ?thesis
      proof
        assume "t \<in> set (if cur = [] then [] else [cur])"
        then have t: "t = cur" and c: "cur \<noteq> []" by (auto split: if_splits)
        with "1.prems"(1) have "space_len (cur @ s) = 0" by simp
        then have "space_len cur = 0" by (rule space_len_prefix [rotated]) simp
        with t c show ?thesis by simp
      next
        assume "t \<in> set (fields_scan [] (drop (space_len s) s))"
        with "1.IH"(2) [OF ne False] show ?thesis by simp
      qed
    qed
  qed
qed

lemma Fields_tokens: "t \<in> set (Fields s) \<Longrightarrow> t \<noteq> [] \<and> space_len t = 0"
  unfolding Fields_def by (rule fields_scan_tokens [of "[]"]) simp_all

lemma space_len_token_blank:
  assumes "t \<noteq> []" and "space_len t = 0" and "prefix pre (t @ CHR 0x20 # rest)"
  shows "space_len pre = 0"
proof (rule ccontr)
  assume "space_len pre \<noteq> 0"
  then obtain e where e: "e \<in> set unicode_spaces" and "prefix e pre"
    using space_len_nonzero by blast
  with assms(3) have "prefix e (t @ CHR 0x20 # rest)" by (meson prefix_order.trans)
  then have "prefix e t \<or> (\<exists>us. e = t @ us \<and> prefix us (CHR 0x20 # rest))"
    by (simp add: prefix_append)
  then show False
  proof (elim disjE exE conjE)
    assume "prefix e t"
    with e assms(2) show False using space_len_nonzero by blast
  next
    fix us
    assume us: "e = t @ us" "prefix us (CHR 0x20 # rest)"
    show False
    proof (cases us)
      case Nil
      with us(1) have "prefix e t" by simp
      with e assms(2) show False using space_len_nonzero by blast
    next
      case (Cons u us')
      with us(2) have "u = CHR 0x20" by simp
      with Cons us(1) assms(1) have "CHR 0x20 \<in> set (tl e)" by (cases t) auto
      with unicode_spaces_tail [OF e] show False by simp
    qed
  qed
qed

lemma Join_tokens_prefix:
  assumes "\<forall>t \<in> set ts. t \<noteq> [] \<and> space_len t = 0" and "prefix pre (Join ts '' '')"
  shows "space_len pre = 0"
proof (cases ts)
  case Nil
  with assms(2) show ?thesis by (simp add: space_len_def unicode_spaces_def)
next
  case (Cons t ts')
  show ?thesis
  proof (cases ts')
    case Nil
    with Cons assms show ?thesis using space_len_prefix by auto
  next
    case (Cons u us)
    with \<open>ts = t # ts'\<close> assms(2) have "prefix pre (t @ CHR 0x20 # Join (u # us) '' '')" by simp
    moreover from \<open>ts = t # ts'\<close> assms(1) have "t \<noteq> []" "space_len t = 0" by auto
    ultimately show ?thesis using space_len_token_blank by blast
  qed
qed

lemma parse_line_Parsed:
  assumes "TrimSpace raw \<noteq> ''''" and "HasPrefix (TrimSpace raw) ''!''"
    and "4 \<le> length (Fields (TrimSpace raw))"
    and "Atoi (TrimPrefix (Fields (TrimSpace raw) ! 0) ''!'') = Inr iid"
    and "tail = Join (drop 2 (Fields (TrimSpace raw))) '' ''"
  shows "parse_line raw =
    Inr (Parsed (text_review iid
      (if LastIndex tail CHR ''('' \<noteq> -1 \<and> LastIndex tail CHR '')'' \<noteq> -1 \<and>
          LastIndex tail CHR '')'' > LastIndex tail CHR ''(''
       then TrimRightSpace (take (nat (LastIndex tail CHR ''('')) tail) else tail)))"
proof -
  let ?line = "TrimSpace raw"
  let ?parts = "Fields ?line"
  from assms(2) have ns: "\<not> HasPrefix ?line ''Showing''"
    by (auto simp: HasPrefix_def prefix_def)
  from assms(3) have i0: "index ?parts 0 = Inr (?parts ! 0)" by (auto simp: index_def)
  from assms(3) have sf: "slice_from ?parts 2 = Inr (drop 2 ?parts)" by (simp add: slice_from_def)
  have st: "LastIndex tail CHR ''('' \<noteq> -1 \<Longrightarrow>
      slice_to tail (LastIndex tail CHR ''('') = Inr (take (nat (LastIndex tail CHR ''('')) tail)"
    using LastIndex_range [of tail "CHR ''(''"] by (simp add: slice_to_def)
  have tok: "\<forall>t \<in> set (drop 2 ?parts). t \<noteq> [] \<and> space_len t = 0"
    using Fields_tokens in_set_dropD by metis
  have "space_len (take (nat (LastIndex tail CHR ''('')) tail) = 0"
    using tok by (rule Join_tokens_prefix) (simp add: assms(5) [symmetric] take_is_prefix)
  then have tr: "TrimSpace (take (nat (LastIndex tail CHR ''('')) tail) =
      TrimRightSpace (take (nat (LastIndex tail CHR ''('')) tail)"
    by (simp add: TrimSpace_def TrimLeftSpace.simps)
  show ?thesis
    unfolding parse_line_def Let_def
    using assms(1,2,3,4) ns i0 sf st tr by (simp add: assms(5) [symmetric])
qed

lemma paren_condition:
  "LastIndex tail CHR ''('' \<noteq> -1 \<and> LastIndex tail CHR '')'' \<noteq> -1 \<and>
     LastIndex tail CHR '')'' > LastIndex tail CHR ''('' \<longleftrightarrow>
   (\<exists>pre post. tail = pre @ ''('' @ post \<and> CHR ''('' \<notin> set post \<and> CHR '')'' \<in> set post)"
proof
  assume c: "LastIndex tail CHR ''('' \<noteq> -1 \<and> LastIndex tail CHR '')'' \<noteq> -1 \<and>
     LastIndex tail CHR '')'' > LastIndex tail CHR ''(''"
  then have "CHR ''('' \<in> set tail" using LastIndex_none by blast
  then obtain pre post where t: "tail = pre @ CHR ''('' # post" and p: "CHR ''('' \<notin> set post"
    and bs: "LastIndex tail CHR ''('' = int (length pre)"
    using LastIndex_split by blast
  have "CHR '')'' \<in> set post"
  proof (rule ccontr)
    assume np: "CHR '')'' \<notin> set post"
    from c have "CHR '')'' \<in> set tail" using LastIndex_none by blast
    with t np have "CHR '')'' \<in> set pre" by auto
    moreover from np have "CHR '')'' \<notin> set (CHR ''('' # post)" by simp
    ultimately have "LastIndex (pre @ CHR ''('' # post) CHR '')'' < int (length pre)"
      by (intro LastIndex_before)
    with c bs t show False by simp
  qed
  with t p show "\<exists>pre post. tail = pre @ ''('' @ post \<and> CHR ''('' \<notin> set post \<and> CHR '')'' \<in> set post"
    by auto
next
  assume "\<exists>pre post. tail = pre @ ''('' @ post \<and> CHR ''('' \<notin> set post \<and> CHR '')'' \<in> set post"
  then obtain pre post where t: "tail = pre @ CHR ''('' # post" and p: "CHR ''('' \<notin> set post"
    and q: "CHR '')'' \<in> set post" by auto
  from p have bs: "LastIndex tail CHR ''('' = int (length pre)" unfolding t by (rule LastIndex_last)
  from q have "int (length (pre @ ''('')) \<le> LastIndex ((pre @ ''('') @ post) CHR '')''"
    by (rule LastIndex_after)
  with bs t show "LastIndex tail CHR ''('' \<noteq> -1 \<and> LastIndex tail CHR '')'' \<noteq> -1 \<and>
     LastIndex tail CHR '')'' > LastIndex tail CHR ''(''" by simp
qed

section \<open>Classification of the remote URL\<close>

text \<open>
  C3. When the normalized URL splits into at least three segments and the first one
  contains \<open>github.com\<close>, \<open>getGitRepoDetails\<close> returns the second segment as the owner
  and the third as the repository name. For \<open>git@github.com:acme/widgets.git\<close> the
  platform detected is \<open>github\<close>, the owner \<open>acme\<close> and the repository \<open>widgets\<close>.
\<close>

theorem getGitRepoDetails_github:
  "(\<forall>out. 3 \<le> length (Split (normalize_url out) CHR ''/'') \<and>
        Contains (Split (normalize_url out) CHR ''/'' ! 0) ''github.com'' \<longrightarrow>
        getGitRepoDetails (out, None) =
          (Split (normalize_url out) CHR ''/'' ! 1, Split (normalize_url out) CHR ''/'' ! 2, None))
   \<and> detectPlatform (''git@github.com:acme/widgets.git'', None) = (''github'', None)
   \<and> getGitRepoDetails (''git@github.com:acme/widgets.git'', None) = (''acme'', ''widgets'', None)"
proof (intro conjI allI impI)
  fix out
  assume "3 \<le> length (Split (normalize_url out) CHR ''/'') \<and>
        Contains (Split (normalize_url out) CHR ''/'' ! 0) ''github.com''"
  then show "getGitRepoDetails (out, None) =
          (Split (normalize_url out) CHR ''/'' ! 1, Split (normalize_url out) CHR ''/'' ! 2, None)"
    by (simp add: getGitRepoDetails_def Let_def)
next
  show "detectPlatform (''git@github.com:acme/widgets.git'', None) = (''github'', None)"
    by code_simp
next
  show "getGitRepoDetails (''git@github.com:acme/widgets.git'', None) = (''acme'', ''widgets'', None)"
    by code_simp
qed

text \<open>The same URL as \<open>git config\<close> prints it, with the line feed at its end.\<close>

theorem getGitRepoDetails_github_witness:
  "3 \<le> length (Split (normalize_url (''git@github.com:acme/widgets.git'' @ [CHR 0x0A])) CHR ''/'') \<and>
   Contains (Split (normalize_url (''git@github.com:acme/widgets.git'' @ [CHR 0x0A])) CHR ''/'' ! 0)
     ''github.com'' \<and>
   getGitRepoDetails (''git@github.com:acme/widgets.git'' @ [CHR 0x0A], None) =
     (''acme'', ''widgets'', None)"
proof -
  let ?out = "''git@github.com:acme/widgets.git'' @ [CHR 0x0A]"
  have parts: "Split (normalize_url ?out) CHR ''/'' = [''github.com'', ''acme'', ''widgets'']"
    by code_simp
  have h: "3 \<le> length (Split (normalize_url ?out) CHR ''/'') \<and>
        Contains (Split (normalize_url ?out) CHR ''/'' ! 0) ''github.com''"
    unfolding parts by simp
  from getGitRepoDetails_github have
    "getGitRepoDetails (?out, None) =
       (Split (normalize_url ?out) CHR ''/'' ! 1, Split (normalize_url ?out) CHR ''/'' ! 2, None)"
    using h by blast
  then have "getGitRepoDetails (?out, None) = (''acme'', ''widgets'', None)"
    unfolding parts by simp
  with h show ?thesis by blast
qed

text \<open>
  C4. When the normalized URL splits into at least three segments and the first one
  does not contain \<open>github.com\<close>, \<open>getGitRepoDetails\<close> returns the segments after the
  first joined by \<open>/\<close>, and the empty string as its second result. For
  \<open>https://gitlab.com/acme/team/widgets.git\<close> the platform detected is \<open>gitlab\<close> and the
  path \<open>acme/team/widgets\<close>.
\<close>

theorem getGitRepoDetails_gitlab:
  "(\<forall>out. 3 \<le> length (Split (normalize_url out) CHR ''/'') \<and>
        \<not> Contains (Split (normalize_url out) CHR ''/'' ! 0) ''github.com'' \<longrightarrow>
        getGitRepoDetails (out, None) =
          (Join (drop 1 (Split (normalize_url out) CHR ''/'')) ''/'', '''', None))
   \<and> detectPlatform (''https://gitlab.com/acme/team/widgets.git'', None) = (''gitlab'', None)
   \<and> getGitRepoDetails (''https://gitlab.com/acme/team/widgets.git'', None) =
       (''acme/team/widgets'', '''', None)"
proof (intro conjI allI impI)
  fix out
  assume "3 \<le> length (Split (normalize_url out) CHR ''/'') \<and>
        \<not> Contains (Split (normalize_url out) CHR ''/'' ! 0) ''github.com''"
  then show "getGitRepoDetails (out, None) =
          (Join (drop 1 (Split (normalize_url out) CHR ''/'')) ''/'', '''', None)"
    by (simp add: getGitRepoDetails_def Let_def)
next
  show "detectPlatform (''https://gitlab.com/acme/team/widgets.git'', None) = (''gitlab'', None)"
    by code_simp
next
  show "getGitRepoDetails (''https://gitlab.com/acme/team/widgets.git'', None) =
       (''acme/team/widgets'', '''', None)"
    by code_simp
qed

theorem getGitRepoDetails_gitlab_witness:
  "3 \<le> length (Split (normalize_url (''https://gitlab.com/acme/team/widgets.git'' @ [CHR 0x0A])) CHR ''/'') \<and>
   \<not> Contains (Split (normalize_url (''https://gitlab.com/acme/team/widgets.git'' @ [CHR 0x0A])) CHR ''/'' ! 0)
     ''github.com'' \<and>
   getGitRepoDetails (''https://gitlab.com/acme/team/widgets.git'' @ [CHR 0x0A], None) =
     (''acme/team/widgets'', '''', None)"
proof -
  let ?out = "''https://gitlab.com/acme/team/widgets.git'' @ [CHR 0x0A]"
  have parts: "Split (normalize_url ?out) CHR ''/'' = [''gitlab.com'', ''acme'', ''team'', ''widgets'']"
    by code_simp
  have h: "3 \<le> length (Split (normalize_url ?out) CHR ''/'') \<and>
        \<not> Contains (Split (normalize_url ?out) CHR ''/'' ! 0) ''github.com''"
    unfolding parts by simp
  from getGitRepoDetails_gitlab have
    "getGitRepoDetails (?out, None) = (Join (drop 1 (Split (normalize_url ?out) CHR ''/'')) ''/'', '''', None)"
    using h by blast
  then have "getGitRepoDetails (?out, None) = (''acme/team/widgets'', '''', None)"
    unfolding parts by simp
  with h show ?thesis by blast
qed

text \<open>
  C7. When the normalized URL splits into fewer than three segments,
  \<open>getGitRepoDetails\<close> returns the error of line 294 with two empty strings; when it
  splits into three or more, it returns no error.
\<close>

theorem getGitRepoDetails_malformed:
  "(length (Split (normalize_url out) CHR ''/'') < 3 \<longrightarrow>
      getGitRepoDetails (out, None) = ('''', '''', Some (InvalidRepoURL (normalize_url out))))
   \<and> (3 \<le> length (Split (normalize_url out) CHR ''/'') \<longrightarrow>
      snd (snd (getGitRepoDetails (out, None))) = None)"
  by (simp add: getGitRepoDetails_def Let_def)

theorem getGitRepoDetails_malformed_witness:
  "length (Split (normalize_url ''https://github.com/acme'') CHR ''/'') < 3 \<and>
   getGitRepoDetails (''https://github.com/acme'', None) =
     ('''', '''', Some (InvalidRepoURL ''github.com/acme'')) \<and>
   3 \<le> length (Split (normalize_url ''https://github.com/acme/widgets.git'') CHR ''/'') \<and>
   snd (snd (getGitRepoDetails (''https://github.com/acme/widgets.git'', None))) = None"
proof -
  have n1: "normalize_url ''https://github.com/acme'' = ''github.com/acme''"
    by code_simp
  have h1: "length (Split (normalize_url ''https://github.com/acme'') CHR ''/'') < 3"
    by code_simp
  have h2: "3 \<le> length (Split (normalize_url ''https://github.com/acme/widgets.git'') CHR ''/'')"
    by code_simp
  from getGitRepoDetails_malformed [of "''https://github.com/acme''"] h1
  have "getGitRepoDetails (''https://github.com/acme'', None) =
     ('''', '''', Some (InvalidRepoURL ''github.com/acme''))"
    unfolding n1 by blast
  moreover from getGitRepoDetails_malformed [of "''https://github.com/acme/widgets.git''"] h2
  have "snd (snd (getGitRepoDetails (''https://github.com/acme/widgets.git'', None))) = None"
    by blast
  ultimately show ?thesis using h1 h2 by blast
qed

text \<open>
  C5, as amended. For a URL \<open>git@host:owner/repo.git\<close> whose user name is \<open>git\<close> (the
  host holding no colon), the normalization replaces the first colon by a slash and
  strips \<open>git@\<close> and \<open>.git\<close>: the result is \<open>host/owner/repo\<close>.
\<close>

theorem normalize_url_ssh_git:
  "CHR '':'' \<notin> set host \<longrightarrow>
     normalize_url (''git@'' @ host @ '':'' @ owner @ ''/'' @ repo @ ''.git'') =
       host @ ''/'' @ owner @ ''/'' @ repo"
proof
  assume h: "CHR '':'' \<notin> set host"
  let ?path = "owner @ ''/'' @ repo"
  let ?url = "''git@'' @ host @ '':'' @ ?path @ ''.git''"
  have "space_len_end ?url = 0"
    using space_len_end_git [of "''git@'' @ host @ '':'' @ ?path"] by simp
  then have t: "TrimSpace ?url = ?url"
    by (simp add: TrimSpace_id space_len_git)
  have "CHR '':'' \<notin> set (''git@'' @ host)" using h by simp
  then have "ReplaceFirst ((''git@'' @ host) @ CHR '':'' # (?path @ ''.git'')) CHR '':'' ''/'' =
      (''git@'' @ host) @ ''/'' @ (?path @ ''.git'')"
    by (rule ReplaceFirst_first)
  then have r: "ReplaceFirst ?url CHR '':'' ''/'' = ''git@'' @ host @ ''/'' @ ?path @ ''.git''"
    by simp
  have p: "TrimPrefix (''git@'' @ host @ ''/'' @ ?path @ ''.git'') ''git@'' =
      host @ ''/'' @ ?path @ ''.git''"
    by (simp add: TrimPrefix_def HasPrefix_def)
  have s: "TrimSuffix ((host @ ''/'' @ ?path) @ ''.git'') ''.git'' = host @ ''/'' @ ?path"
    unfolding TrimSuffix_def
    by (simp only: suffix_appendI suffix_order.refl if_True length_append) simp
  have hp: "HasPrefix ?url ''git@''" by (simp add: HasPrefix_def)
  have "normalize_url ?url = host @ ''/'' @ ?path"
    unfolding normalize_url_def Let_def t using hp r p s by simp
  then show "normalize_url (''git@'' @ host @ '':'' @ owner @ ''/'' @ repo @ ''.git'') =
       host @ ''/'' @ owner @ ''/'' @ repo"
    by simp
qed

theorem normalize_url_ssh_git_witness:
  "CHR '':'' \<notin> set ''github.com'' \<and>
   normalize_url ''git@github.com:acme/widgets.git'' = ''github.com/acme/widgets''"
proof -
  have h: "CHR '':'' \<notin> set ''github.com''" by simp
  from normalize_url_ssh_git [of "''github.com''" "''acme''" "''widgets''"] h
  have "normalize_url (''git@'' @ ''github.com'' @ '':'' @ ''acme'' @ ''/'' @ ''widgets'' @ ''.git'') =
       ''github.com'' @ ''/'' @ ''acme'' @ ''/'' @ ''widgets''"
    by blast
  then have "normalize_url ''git@github.com:acme/widgets.git'' = ''github.com/acme/widgets''"
    by simp
  with h show ?thesis by blast
qed

text \<open>
  C5 as stated fails for a user name other than \<open>git\<close>: the test of line 281 is on the
  prefix \<open>git@\<close>, so \<open>alice@github.com:acme/widgets.git\<close> is left as it is, and
  \<open>getGitRepoDetails\<close> then finds two segments only.
\<close>

theorem normalize_url_ssh_other_user:
  "normalize_url ''alice@github.com:acme/widgets.git'' \<noteq> ''github.com/acme/widgets'' \<and>
   normalize_url ''alice@github.com:acme/widgets.git'' = ''alice@github.com:acme/widgets.git'' \<and>
   getGitRepoDetails (''alice@github.com:acme/widgets.git'', None) =
     ('''', '''', Some (InvalidRepoURL ''alice@github.com:acme/widgets.git''))"
  by code_simp

text \<open>
  C10, as amended. When \<open>github.com\<close> is in the lower-cased output of \<open>git config\<close> but
  not in the output itself, and the normalized URL splits into at least three segments,
  \<open>detectPlatform\<close> answers \<open>github\<close> while \<open>getGitRepoDetails\<close> returns the segments
  after the first joined by \<open>/\<close>, with an empty repository name.
\<close>

theorem mixed_case_github:
  "Contains (ToLower out) ''github.com'' \<and> \<not> Contains out ''github.com'' \<and>
   3 \<le> length (Split (normalize_url out) CHR ''/'') \<longrightarrow>
     detectPlatform (out, None) = (''github'', None) \<and>
     getGitRepoDetails (out, None) =
       (Join (drop 1 (Split (normalize_url out) CHR ''/'')) ''/'', '''', None)"
proof
  assume h: "Contains (ToLower out) ''github.com'' \<and> \<not> Contains out ''github.com'' \<and>
   3 \<le> length (Split (normalize_url out) CHR ''/'')"
  then have d: "detectPlatform (out, None) = (''github'', None)"
    by (simp add: detectPlatform_def)
  have "\<not> Contains (Split (normalize_url out) CHR ''/'' ! 0) ''github.com''"
  proof
    assume "Contains (Split (normalize_url out) CHR ''/'' ! 0) ''github.com''"
    then have "sublist ''github.com'' (Split (normalize_url out) CHR ''/'' ! 0)"
      by (simp add: Contains_sublist)
    moreover have "CHR ''/'' \<notin> set ''github.com''" by simp
    ultimately have "sublist ''github.com'' out" by (rule normalize_url_host_sublist)
    with h show False by (simp add: Contains_sublist)
  qed
  with h have "getGitRepoDetails (out, None) =
       (Join (drop 1 (Split (normalize_url out) CHR ''/'')) ''/'', '''', None)"
    by (simp add: getGitRepoDetails_def Let_def)
  with d show "detectPlatform (out, None) = (''github'', None) \<and>
     getGitRepoDetails (out, None) =
       (Join (drop 1 (Split (normalize_url out) CHR ''/'')) ''/'', '''', None)" by simp
qed

theorem mixed_case_github_witness:
  "Contains (ToLower ''https://GitHub.com/acme/widgets.git'') ''github.com'' \<and>
   \<not> Contains ''https://GitHub.com/acme/widgets.git'' ''github.com'' \<and>
   3 \<le> length (Split (normalize_url ''https://GitHub.com/acme/widgets.git'') CHR ''/'') \<and>
   detectPlatform (''https://GitHub.com/acme/widgets.git'', None) = (''github'', None) \<and>
   getGitRepoDetails (''https://GitHub.com/acme/widgets.git'', None) = (''acme/widgets'', '''', None)"
proof -
  let ?out = "''https://GitHub.com/acme/widgets.git''"
  have parts: "Split (normalize_url ?out) CHR ''/'' = [''GitHub.com'', ''acme'', ''widgets'']"
    by code_simp
  have h1: "Contains (ToLower ?out) ''github.com''" by code_simp
  have h2: "\<not> Contains ?out ''github.com''" by code_simp
  have h3: "3 \<le> length (Split (normalize_url ?out) CHR ''/'')" unfolding parts by simp
  from mixed_case_github [of ?out] h1 h2 h3
  have "detectPlatform (?out, None) = (''github'', None) \<and>
     getGitRepoDetails (?out, None) =
       (Join (drop 1 (Split (normalize_url ?out) CHR ''/'')) ''/'', '''', None)"
    by blast
  then have "detectPlatform (?out, None) = (''github'', None) \<and>
     getGitRepoDetails (?out, None) = (''acme/widgets'', '''', None)"
    unfolding parts by simp
  with h1 h2 h3 show ?thesis by blast
qed

text \<open>
  C10 as stated fails when the mixed-case URL has fewer than three segments: for
  \<open>https://GitHub.com/acme\<close> the platform is \<open>github\<close>, and \<open>getGitRepoDetails\<close> returns
  the error of line 294 before it reaches the test on the host.
\<close>

theorem mixed_case_github_short:
  "Contains (ToLower ''https://GitHub.com/acme'') ''github.com'' \<and>
   \<not> Contains ''https://GitHub.com/acme'' ''github.com'' \<and>
   detectPlatform (''https://GitHub.com/acme'', None) = (''github'', None) \<and>
   getGitRepoDetails (''https://GitHub.com/acme'', None) =
     ('''', '''', Some (InvalidRepoURL ''GitHub.com/acme'')) \<and>
   getGitRepoDetails (''https://GitHub.com/acme'', None) \<noteq>
     (Join (drop 1 (Split (normalize_url ''https://GitHub.com/acme'') CHR ''/'')) ''/'', '''', None)"
  by code_simp

section \<open>The text parser\<close>

text \<open>
  C1. Let a line pass the checks of lines 131 to 148 (trimmed, it starts with \<open>!\<close>, has
  at least 4 fields, and its first field without the \<open>!\<close> is read as the integer \<open>iid\<close>),
  and let \<open>tail\<close> be its fields from index 2 on, joined by single spaces. When \<open>tail\<close> is
  \<open>pre ( post\<close> with no further \<open>(\<close> in \<open>post\<close> and a \<open>)\<close> in \<open>post\<close>, that is when the
  last \<open>)\<close> comes after the last \<open>(\<close>, the review has the number \<open>iid\<close> and the title
  \<open>pre\<close> with the white space at its end removed. When \<open>tail\<close> cannot be cut so, the
  title is \<open>tail\<close>. The two lines of the specification give the numbers 42 and 7 and the
  titles \<open>Fix login bug\<close> and \<open>Refactor parser\<close>; the arrow of the first line is the three
  bytes E2 86 90.
\<close>

theorem parse_line_title:
  "(TrimSpace raw \<noteq> '''' \<and> HasPrefix (TrimSpace raw) ''!'' \<and>
    4 \<le> length (Fields (TrimSpace raw)) \<and>
    Atoi (TrimPrefix (Fields (TrimSpace raw) ! 0) ''!'') = Inr iid \<and>
    tail = Join (drop 2 (Fields (TrimSpace raw))) '' '' \<longrightarrow>
      (\<forall>pre post. tail = pre @ ''('' @ post \<and> CHR ''('' \<notin> set post \<and> CHR '')'' \<in> set post \<longrightarrow>
         parse_line raw = Inr (Parsed (text_review iid (TrimRightSpace pre)))) \<and>
      ((\<nexists>pre post. tail = pre @ ''('' @ post \<and> CHR ''('' \<notin> set post \<and> CHR '')'' \<in> set post) \<longrightarrow>
         parse_line raw = Inr (Parsed (text_review iid tail))))
   \<and> parse_line (''!42 group/repo Fix login bug (fix-login '' @ [CHR 0xE2, CHR 0x86, CHR 0x90] @ '' main)'') =
       Inr (Parsed (text_review 42 ''Fix login bug''))
   \<and> parse_line ''!7 group/repo Refactor parser'' = Inr (Parsed (text_review 7 ''Refactor parser''))"
proof (intro conjI impI allI)
  fix pre post
  assume a: "TrimSpace raw \<noteq> '''' \<and> HasPrefix (TrimSpace raw) ''!'' \<and>
    4 \<le> length (Fields (TrimSpace raw)) \<and>
    Atoi (TrimPrefix (Fields (TrimSpace raw) ! 0) ''!'') = Inr iid \<and>
    tail = Join (drop 2 (Fields (TrimSpace raw))) '' ''"
  assume d: "tail = pre @ ''('' @ post \<and> CHR ''('' \<notin> set post \<and> CHR '')'' \<in> set post"
  then have c: "LastIndex tail CHR ''('' \<noteq> -1 \<and> LastIndex tail CHR '')'' \<noteq> -1 \<and>
     LastIndex tail CHR '')'' > LastIndex tail CHR ''(''"
    using paren_condition by blast
  from d have "LastIndex tail CHR ''('' = int (length pre)" by (simp add: LastIndex_last)
  with d have "take (nat (LastIndex tail CHR ''('')) tail = pre" by simp
  with c parse_line_Parsed [of raw iid tail] a
  show "parse_line raw = Inr (Parsed (text_review iid (TrimRightSpace pre)))" by simp
next
  assume a: "TrimSpace raw \<noteq> '''' \<and> HasPrefix (TrimSpace raw) ''!'' \<and>
    4 \<le> length (Fields (TrimSpace raw)) \<and>
    Atoi (TrimPrefix (Fields (TrimSpace raw) ! 0) ''!'') = Inr iid \<and>
    tail = Join (drop 2 (Fields (TrimSpace raw))) '' ''"
  assume "\<nexists>pre post. tail = pre @ ''('' @ post \<and> CHR ''('' \<notin> set post \<and> CHR '')'' \<in> set post"
  then have "\<not> (LastIndex tail CHR ''('' \<noteq> -1 \<and> LastIndex tail CHR '')'' \<noteq> -1 \<and>
     LastIndex tail CHR '')'' > LastIndex tail CHR ''('')"
    using paren_condition by blast
  with parse_line_Parsed [of raw iid tail] a
  show "parse_line raw = Inr (Parsed (text_review iid tail))" by auto
next
  show "parse_line (''!42 group/repo Fix login bug (fix-login '' @ [CHR 0xE2, CHR 0x86, CHR 0x90] @ '' main)'') =
       Inr (Parsed (text_review 42 ''Fix login bug''))"
    by code_simp
next
  show "parse_line ''!7 group/repo Refactor parser'' = Inr (Parsed (text_review 7 ''Refactor parser''))"
    by code_simp
qed

theorem parse_line_title_witness:
  "TrimSpace ''!7 group/repo Refactor (parser) now'' \<noteq> '''' \<and>
   HasPrefix (TrimSpace ''!7 group/repo Refactor (parser) now'') ''!'' \<and>
   4 \<le> length (Fields (TrimSpace ''!7 group/repo Refactor (parser) now'')) \<and>
   Atoi (TrimPrefix (Fields (TrimSpace ''!7 group/repo Refactor (parser) now'') ! 0) ''!'') = Inr 7 \<and>
   ''Refactor (parser) now'' = Join (drop 2 (Fields (TrimSpace ''!7 group/repo Refactor (parser) now''))) '' '' \<and>
   ''Refactor (parser) now'' = ''Refactor '' @ ''('' @ ''parser) now'' \<and>
   CHR ''('' \<notin> set ''parser) now'' \<and> CHR '')'' \<in> set ''parser) now'' \<and>
   parse_line ''!7 group/repo Refactor (parser) now'' = Inr (Parsed (text_review 7 ''Refactor'')) \<and>
   TrimSpace ''!8 group/repo Refactor )parser( now'' \<noteq> '''' \<and>
   HasPrefix (TrimSpace ''!8 group/repo Refactor )parser( now'') ''!'' \<and>
   4 \<le> length (Fields (TrimSpace ''!8 group/repo Refactor )parser( now'')) \<and>
   Atoi (TrimPrefix (Fields (TrimSpace ''!8 group/repo Refactor )parser( now'') ! 0) ''!'') = Inr 8 \<and>
   ''Refactor )parser( now'' = Join (drop 2 (Fields (TrimSpace ''!8 group/repo Refactor )parser( now''))) '' '' \<and>
   (\<nexists>pre post. ''Refactor )parser( now'' = pre @ ''('' @ post \<and> CHR ''('' \<notin> set post \<and>
      CHR '')'' \<in> set post) \<and>
   parse_line ''!8 group/repo Refactor )parser( now'' =
     Inr (Parsed (text_review 8 ''Refactor )parser( now''))"
proof -
  let ?r1 = "''!7 group/repo Refactor (parser) now''"
  let ?r2 = "''!8 group/repo Refactor )parser( now''"
  have a1: "TrimSpace ?r1 \<noteq> ''''" by code_simp
  have a2: "HasPrefix (TrimSpace ?r1) ''!''" by code_simp
  have a3: "4 \<le> length (Fields (TrimSpace ?r1))" by code_simp
  have a4: "Atoi (TrimPrefix (Fields (TrimSpace ?r1) ! 0) ''!'') = Inr 7" by code_simp
  have a5: "''Refactor (parser) now'' = Join (drop 2 (Fields (TrimSpace ?r1))) '' ''" by code_simp
  have a6: "''Refactor (parser) now'' = ''Refactor '' @ ''('' @ ''parser) now''" by simp
  have a7: "CHR ''('' \<notin> set ''parser) now''" by simp
  have a8: "CHR '')'' \<in> set ''parser) now''" by simp
  have t: "TrimRightSpace ''Refactor '' = ''Refactor''" by code_simp
  from parse_line_title [of ?r1 7 "''Refactor (parser) now''"] a1 a2 a3 a4 a5
  have "\<forall>pre post. ''Refactor (parser) now'' = pre @ ''('' @ post \<and> CHR ''('' \<notin> set post \<and>
      CHR '')'' \<in> set post \<longrightarrow> parse_line ?r1 = Inr (Parsed (text_review 7 (TrimRightSpace pre)))"
    by blast
  with a6 a7 a8 have "parse_line ?r1 = Inr (Parsed (text_review 7 (TrimRightSpace ''Refactor '')))"
    by blast
  then have c1: "parse_line ?r1 = Inr (Parsed (text_review 7 ''Refactor''))"
    unfolding t .
  have b1: "TrimSpace ?r2 \<noteq> ''''" by code_simp
  have b2: "HasPrefix (TrimSpace ?r2) ''!''" by code_simp
  have b3: "4 \<le> length (Fields (TrimSpace ?r2))" by code_simp
  have b4: "Atoi (TrimPrefix (Fields (TrimSpace ?r2) ! 0) ''!'') = Inr 8" by code_simp
  have b5: "''Refactor )parser( now'' = Join (drop 2 (Fields (TrimSpace ?r2))) '' ''" by code_simp
  have b6: "\<nexists>pre post. ''Refactor )parser( now'' = pre @ ''('' @ post \<and> CHR ''('' \<notin> set post \<and>
      CHR '')'' \<in> set post"
  proof -
    have "\<not> (LastIndex ''Refactor )parser( now'' CHR ''('' \<noteq> -1 \<and>
        LastIndex ''Refactor )parser( now'' CHR '')'' \<noteq> -1 \<and>
        LastIndex ''Refactor )parser( now'' CHR '')'' > LastIndex ''Refactor )parser( now'' CHR ''('')"
      by code_simp
    then show ?thesis unfolding paren_condition .
  qed
  from parse_line_title [of ?r2 8 "''Refactor )parser( now''"] b1 b2 b3 b4 b5 b6
  have c2: "parse_line ?r2 = Inr (Parsed (text_review 8 ''Refactor )parser( now''))"
    by blast
  from a1 a2 a3 a4 a5 a6 a7 a8 c1 b1 b2 b3 b4 b5 b6 c2 show ?thesis by blast
qed

lemma TrimRightSpace_Nil: "TrimRightSpace [] = []"
  by (simp add: TrimRightSpace.simps space_len_end_def unicode_spaces_def)

text \<open>
  C9. When a line passes the checks and its tail starts with its last \<open>(\<close>, a \<open>)\<close>
  coming after it, the title of the review is the empty string; so it is for the line
  \<open>!5 group/repo (fix-login \<leftarrow> main)\<close>.
\<close>

theorem parse_line_empty_title:
  "(TrimSpace raw \<noteq> '''' \<and> HasPrefix (TrimSpace raw) ''!'' \<and>
    4 \<le> length (Fields (TrimSpace raw)) \<and>
    Atoi (TrimPrefix (Fields (TrimSpace raw) ! 0) ''!'') = Inr iid \<and>
    Join (drop 2 (Fields (TrimSpace raw))) '' '' = ''('' @ post \<and>
    CHR ''('' \<notin> set post \<and> CHR '')'' \<in> set post \<longrightarrow>
      parse_line raw = Inr (Parsed (text_review iid '''')))
   \<and> parse_line (''!5 group/repo (fix-login '' @ [CHR 0xE2, CHR 0x86, CHR 0x90] @ '' main)'') =
       Inr (Parsed (text_review 5 ''''))"
proof (intro conjI impI)
  let ?tail = "Join (drop 2 (Fields (TrimSpace raw))) '' ''"
  assume a: "TrimSpace raw \<noteq> '''' \<and> HasPrefix (TrimSpace raw) ''!'' \<and>
    4 \<le> length (Fields (TrimSpace raw)) \<and>
    Atoi (TrimPrefix (Fields (TrimSpace raw) ! 0) ''!'') = Inr iid \<and>
    ?tail = ''('' @ post \<and> CHR ''('' \<notin> set post \<and> CHR '')'' \<in> set post"
  then have "\<exists>pre post. ?tail = pre @ ''('' @ post \<and> CHR ''('' \<notin> set post \<and> CHR '')'' \<in> set post"
    by (metis append_Nil)
  then have c: "LastIndex ?tail CHR ''('' \<noteq> -1 \<and> LastIndex ?tail CHR '')'' \<noteq> -1 \<and>
     LastIndex ?tail CHR '')'' > LastIndex ?tail CHR ''(''"
    unfolding paren_condition .
  from a have "LastIndex ?tail CHR ''('' = 0"
    using LastIndex_last [of "CHR ''(''" post "[]"] by simp
  with c parse_line_Parsed [of raw iid ?tail] a
  show "parse_line raw = Inr (Parsed (text_review iid ''''))"
    by (simp add: TrimRightSpace_Nil)
next
  show "parse_line (''!5 group/repo (fix-login '' @ [CHR 0xE2, CHR 0x86, CHR 0x90] @ '' main)'') =
       Inr (Parsed (text_review 5 ''''))"
    by code_simp
qed

theorem parse_line_empty_title_witness:
  "TrimSpace ''!5 group/repo (fix-login to main)'' \<noteq> '''' \<and>
   HasPrefix (TrimSpace ''!5 group/repo (fix-login to main)'') ''!'' \<and>
   4 \<le> length (Fields (TrimSpace ''!5 group/repo (fix-login to main)'')) \<and>
   Atoi (TrimPrefix (Fields (TrimSpace ''!5 group/repo (fix-login to main)'') ! 0) ''!'') = Inr 5 \<and>
   Join (drop 2 (Fields (TrimSpace ''!5 group/repo (fix-login to main)''))) '' '' =
     ''('' @ ''fix-login to main)'' \<and>
   CHR ''('' \<notin> set ''fix-login to main)'' \<and> CHR '')'' \<in> set ''fix-login to main)'' \<and>
   parse_line ''!5 group/repo (fix-login to main)'' = Inr (Parsed (text_review 5 ''''))"
proof -
  let ?r = "''!5 group/repo (fix-login to main)''"
  have a1: "TrimSpace ?r \<noteq> ''''" by code_simp
  have a2: "HasPrefix (TrimSpace ?r) ''!''" by code_simp
  have a3: "4 \<le> length (Fields (TrimSpace ?r))" by code_simp
  have a4: "Atoi (TrimPrefix (Fields (TrimSpace ?r) ! 0) ''!'') = Inr 5" by code_simp
  have a5: "Join (drop 2 (Fields (TrimSpace ?r))) '' '' = ''('' @ ''fix-login to main)''" by code_simp
  have a6: "CHR ''('' \<notin> set ''fix-login to main)''" by simp
  have a7: "CHR '')'' \<in> set ''fix-login to main)''" by simp
  from parse_line_empty_title [of ?r 5 "''fix-login to main)''"] a1 a2 a3 a4 a5 a6 a7
  have "parse_line ?r = Inr (Parsed (text_review 5 ''''))" by blast
  with a1 a2 a3 a4 a5 a6 a7 show ?thesis by blast
qed

lemma parse_line_short:
  "length (Fields (TrimSpace raw)) < 4 \<Longrightarrow> parse_line raw = Inr Skipped"
  by (simp add: parse_line_def Let_def)

lemma parse_line_Warned:
  assumes "TrimSpace raw \<noteq> ''''" and "HasPrefix (TrimSpace raw) ''!''"
    and "4 \<le> length (Fields (TrimSpace raw))"
    and "Atoi (TrimPrefix (Fields (TrimSpace raw) ! 0) ''!'') = Inl err"
  shows "parse_line raw = Inr (Warned (TrimSpace raw) err)"
proof -
  from assms(2) have ns: "\<not> HasPrefix (TrimSpace raw) ''Showing''"
    by (auto simp: HasPrefix_def prefix_def)
  from assms(3) have i0: "index (Fields (TrimSpace raw)) 0 = Inr (Fields (TrimSpace raw) ! 0)"
    by (auto simp: index_def)
  show ?thesis
    unfolding parse_line_def Let_def using assms ns i0 by simp
qed

lemma parse_line_cases:
  "parse_line raw = Inr Skipped \<or>
   (\<exists>err. Atoi (TrimPrefix (Fields (TrimSpace raw) ! 0) ''!'') = Inl err \<and>
      parse_line raw = Inr (Warned (TrimSpace raw) err)) \<or>
   (\<exists>iid title. Atoi (TrimPrefix (Fields (TrimSpace raw) ! 0) ''!'') = Inr iid \<and>
      4 \<le> length (Fields (TrimSpace raw)) \<and> parse_line raw = Inr (Parsed (text_review iid title)))"
proof (cases "TrimSpace raw \<noteq> '''' \<and> HasPrefix (TrimSpace raw) ''!'' \<and>
    4 \<le> length (Fields (TrimSpace raw))")
  case False
  then have "parse_line raw = Inr Skipped"
    by (auto simp: parse_line_def Let_def)
  then show ?thesis by simp
next
  case True
  show ?thesis
  proof (cases "Atoi (TrimPrefix (Fields (TrimSpace raw) ! 0) ''!'')")
    case (Inl err)
    with True parse_line_Warned [of raw err] show ?thesis by simp
  next
    case (Inr iid)
    with True parse_line_Parsed [of raw iid, OF _ _ _ _ refl] show ?thesis by blast
  qed
qed

lemma parse_lines_eq:
  "parse_lines raws reviews warnings =
     Inr (reviews @ List.map_filter
            (\<lambda>raw. case parse_line raw of Inr (Parsed r) \<Rightarrow> Some r | _ \<Rightarrow> None) raws,
          warnings @ List.map_filter
            (\<lambda>raw. case parse_line raw of Inr (Warned line err) \<Rightarrow> Some (line, err) | _ \<Rightarrow> None) raws)"
proof (induction raws arbitrary: reviews warnings)
  case Nil
  show ?case by (simp add: map_filter_simps)
next
  case (Cons raw raws)
  from parse_line_cases [of raw] show ?case
    by (elim disjE exE conjE) (simp_all add: Cons.IH map_filter_simps)
qed

text \<open>
  C2. Parsing never panics: \<open>parse_reviews\<close> returns for every output, and so does
  \<open>parse_line\<close> for every line. The reviews returned are those of the lines that parse,
  each parsed on its own, in the order of the lines. A line with fewer than 4 fields is
  skipped; a line whose first field without the \<open>!\<close> is not read as an integer is
  skipped, with the warning of line 146 if it came as far as that; and taking a line
  that gives no review out of the input leaves the reviews as they are.
\<close>

theorem parse_reviews_total:
  "parse_reviews out =
     Inr (List.map_filter
            (\<lambda>raw. case parse_line raw of Inr (Parsed r) \<Rightarrow> Some r | _ \<Rightarrow> None)
            (Split out CHR 0x0A),
          List.map_filter
            (\<lambda>raw. case parse_line raw of Inr (Warned line err) \<Rightarrow> Some (line, err) | _ \<Rightarrow> None)
            (Split out CHR 0x0A))
   \<and> (\<forall>raw. \<exists>res. parse_line raw = Inr res)
   \<and> (\<forall>raw. length (Fields (TrimSpace raw)) < 4 \<longrightarrow> parse_line raw = Inr Skipped)
   \<and> (\<forall>raw err. Atoi (TrimPrefix (Fields (TrimSpace raw) ! 0) ''!'') = Inl err \<longrightarrow>
        parse_line raw = Inr Skipped \<or> parse_line raw = Inr (Warned (TrimSpace raw) err))
   \<and> (\<forall>before bad after.
        (parse_line bad = Inr Skipped \<or> (\<exists>line err. parse_line bad = Inr (Warned line err))) \<longrightarrow>
        (\<exists>reviews warnings warnings'.
           parse_lines (before @ bad # after) [] [] = Inr (reviews, warnings) \<and>
           parse_lines (before @ after) [] [] = Inr (reviews, warnings')))"
proof (intro conjI allI impI)
  show "parse_reviews out =
     Inr (List.map_filter
            (\<lambda>raw. case parse_line raw of Inr (Parsed r) \<Rightarrow> Some r | _ \<Rightarrow> None)
            (Split out CHR 0x0A),
          List.map_filter
            (\<lambda>raw. case parse_line raw of Inr (Warned line err) \<Rightarrow> Some (line, err) | _ \<Rightarrow> None)
            (Split out CHR 0x0A))"
    by (simp add: parse_reviews_def parse_lines_eq)
next
  fix raw
  from parse_line_cases [of raw] show "\<exists>res. parse_line raw = Inr res" by blast
next
  fix raw
  assume "length (Fields (TrimSpace raw)) < 4"
  then show "parse_line raw = Inr Skipped" by (rule parse_line_short)
next
  fix raw err
  assume "Atoi (TrimPrefix (Fields (TrimSpace raw) ! 0) ''!'') = Inl err"
  with parse_line_cases [of raw]
  show "parse_line raw = Inr Skipped \<or> parse_line raw = Inr (Warned (TrimSpace raw) err)"
    by auto
next
  fix before bad after
  assume "parse_line bad = Inr Skipped \<or> (\<exists>line err. parse_line bad = Inr (Warned line err))"
  then have "(case parse_line bad of Inr (Parsed r) \<Rightarrow> Some r | _ \<Rightarrow> None) = None"
    by auto
  then have "List.map_filter (\<lambda>raw. case parse_line raw of Inr (Parsed r) \<Rightarrow> Some r | _ \<Rightarrow> None)
        (before @ bad # after) =
      List.map_filter (\<lambda>raw. case parse_line raw of Inr (Parsed r) \<Rightarrow> Some r | _ \<Rightarrow> None)
        (before @ after)"
    by (simp add: List.map_filter_def)
  then show "\<exists>reviews warnings warnings'.
           parse_lines (before @ bad # after) [] [] = Inr (reviews, warnings) \<and>
           parse_lines (before @ after) [] [] = Inr (reviews, warnings')"
    by (simp add: parse_lines_eq)
qed

theorem parse_reviews_total_witness:
  "length (Fields (TrimSpace ''!3 group/repo title'')) < 4 \<and>
   parse_line ''!3 group/repo title'' = Inr Skipped \<and>
   Atoi (TrimPrefix (Fields (TrimSpace ''!x group/repo a b'') ! 0) ''!'') = Inl (NumError ''x'') \<and>
   (parse_line ''!x group/repo a b'' = Inr Skipped \<or>
    parse_line ''!x group/repo a b'' = Inr (Warned (TrimSpace ''!x group/repo a b'') (NumError ''x''))) \<and>
   (parse_line ''!x group/repo a b'' = Inr Skipped \<or>
    (\<exists>line err. parse_line ''!x group/repo a b'' = Inr (Warned line err))) \<and>
   (\<exists>reviews warnings warnings'.
      parse_lines ([''!42 group/repo Fix login bug (fix-login)''] @ ''!x group/repo a b'' #
        [''!7 group/repo Refactor parser'']) [] [] = Inr (reviews, warnings) \<and>
      parse_lines ([''!42 group/repo Fix login bug (fix-login)''] @
        [''!7 group/repo Refactor parser'']) [] [] = Inr (reviews, warnings'))"
proof -
  have h1: "length (Fields (TrimSpace ''!3 group/repo title'')) < 4" by code_simp
  have h2: "Atoi (TrimPrefix (Fields (TrimSpace ''!x group/repo a b'') ! 0) ''!'') = Inl (NumError ''x'')"
    by code_simp
  have w: "parse_line ''!x group/repo a b'' = Inr (Warned ''!x group/repo a b'' (NumError ''x''))"
    by code_simp
  then have h3: "parse_line ''!x group/repo a b'' = Inr Skipped \<or>
    (\<exists>line err. parse_line ''!x group/repo a b'' = Inr (Warned line err))"
    by blast
  note t = parse_reviews_total [of "''''"]
  from t h1 have c1: "parse_line ''!3 group/repo title'' = Inr Skipped" by blast
  from t h2 have c2: "parse_line ''!x group/repo a b'' = Inr Skipped \<or>
    parse_line ''!x group/repo a b'' = Inr (Warned (TrimSpace ''!x group/repo a b'') (NumError ''x''))"
    by blast
  from t h3 have c3: "\<exists>reviews warnings warnings'.
      parse_lines ([''!42 group/repo Fix login bug (fix-login)''] @ ''!x group/repo a b'' #
        [''!7 group/repo Refactor parser'']) [] [] = Inr (reviews, warnings) \<and>
      parse_lines ([''!42 group/repo Fix login bug (fix-login)''] @
        [''!7 group/repo Refactor parser'']) [] [] = Inr (reviews, warnings')"
    by blast
  from h1 c1 h2 c2 h3 c3 show ?thesis by blast
qed

section \<open>The diff and the run\<close>

text \<open>
  What \<open>GetDiff\<close> returns, by the result of \<open>cmd.Output()\<close>: the output when there is no
  error; the error of lines 92 and 184 with the text of \<open>Stderr\<close> when the process exited
  with a status other than 0; a panic when the error is of another type.
\<close>

lemma GetDiff_result:
  "run e (diff_cmd r n path) = (out, None) \<Longrightarrow>
     GetDiff e r n path = ([Exec (diff_cmd r n path)], Inr (out, None))"
  "run e (diff_cmd r n path) = (out, Some (ExitError state stderr)) \<Longrightarrow>
     GetDiff e r n path =
       ([Exec (diff_cmd r n path)],
        Inr ('''', Some (ExecFailed (diff_cmd_name r) (ExitError state stderr) stderr)))"
  "run e (diff_cmd r n path) = (out, Some (OtherError msg)) \<Longrightarrow>
     GetDiff e r n path = ([Exec (diff_cmd r n path)], Inl InterfaceConversion)"
  by (simp_all add: GetDiff_def exec_failed_def)

text \<open>
  C6 does not hold of the code: a failed call can end the run abnormally. Where the
  command for the diff cannot be started, \<open>GetDiff\<close> panics at the type assertion
  \<open>err.(*exec.ExitError)\<close> for both reviewers, instead of returning an error, and a run of
  \<open>main\<close> that has listed the reviews and had one chosen ends with that panic.
\<close>

theorem GetDiff_panics:
  "GetDiff world_diff_not_started (GitHubReviewer ''token'' ''acme'' ''widgets'') 7 ''acme/widgets'' =
     ([Exec [''gh'', ''pr'', ''diff'', ''7'', ''--repo'', ''acme/widgets'']], Inl InterfaceConversion) \<and>
   GetDiff world_diff_not_started (GitLabReviewer ''acme/widgets'') 7 ''acme/widgets'' =
     ([Exec [''glab'', ''mr'', ''diff'', ''7'', ''--repo'', ''acme/widgets'']], Inl InterfaceConversion) \<and>
   snd (main world_diff_not_started) = Panicked InterfaceConversion"
  by code_simp

lemma NewGitHubReviewer_events:
  "NewGitHubReviewer e = (evs, made) \<Longrightarrow>
     set evs \<subseteq> {Exec [''gh'', ''auth'', ''token''], Exec git_remote_cmd}"
  by (auto simp: NewGitHubReviewer_def split: prod.splits option.splits)

lemma NewGitLabReviewer_events:
  "NewGitLabReviewer e = (evs, made) \<Longrightarrow> set evs \<subseteq> {Exec git_remote_cmd}"
  by (auto simp: NewGitLabReviewer_def split: prod.splits option.splits)

lemma ListReviews_events:
  "ListReviews e r = (evs, listed) \<Longrightarrow> ev \<in> set evs \<Longrightarrow>
     (\<exists>owner repo. ev = ListPulls owner repo) \<or>
     (\<exists>path. ev = Exec [''glab'', ''mr'', ''list'', ''--repo'', path]) \<or>
     (\<exists>line err. ev = LogWarning line err)"
  by (cases r) (auto split: prod.splits option.splits sum.splits)

lemma diff_cmd_neq:
  "diff_cmd r n path \<noteq> git_remote_cmd"
  "diff_cmd r n path \<noteq> [''gh'', ''auth'', ''token'']"
  "diff_cmd r n path \<noteq> [''glab'', ''mr'', ''list'', ''--repo'', p]"
  by (simp_all add: diff_cmd_def git_remote_cmd_def split: reviewer.splits)

text \<open>
  C8. When the platform is detected, the reviewer is made and \<open>ListReviews\<close> returns no
  review and no error, \<open>main\<close> prints the message of line 228 and returns: the events of
  the run are those up to the listing and that message, and none of them is the prompt
  shown for a choice, a command for a diff, or the text made by \<open>generateAgentPrompt\<close>.
\<close>

theorem main_no_reviews:
  "detectPlatform (run e git_remote_cmd) = (platform, None) \<and>
   (platform = ''github'' \<or> platform = ''gitlab'') \<and>
   (if platform = ''github'' then NewGitHubReviewer e else NewGitLabReviewer e) = (evs, Inr r) \<and>
   ListReviews e r = (evs', Inr ([], None)) \<longrightarrow>
     main e =
       ([Say Detecting, Exec git_remote_cmd,
         Say (if platform = ''github'' then GitHubDetected else GitLabDetected)] @ evs @ evs' @
        [Say NoOpenReviews], Returned) \<and>
     (\<forall>ev \<in> set (fst (main e)).
        (\<forall>items. ev \<noteq> Select items) \<and>
        (\<forall>r' n path. ev \<noteq> Exec (diff_cmd r' n path)) \<and>
        (\<forall>p. ev \<noteq> Say (PromptText p)))"
proof (intro impI)
  assume a: "detectPlatform (run e git_remote_cmd) = (platform, None) \<and>
   (platform = ''github'' \<or> platform = ''gitlab'') \<and>
   (if platform = ''github'' then NewGitHubReviewer e else NewGitLabReviewer e) = (evs, Inr r) \<and>
   ListReviews e r = (evs', Inr ([], None))"
  let ?t = "[Say Detecting, Exec git_remote_cmd,
         Say (if platform = ''github'' then GitHubDetected else GitLabDetected)] @ evs @ evs' @
        [Say NoOpenReviews]"
  define quiet where "quiet = (\<lambda>ev. (\<forall>items. ev \<noteq> Select items) \<and>
        (\<forall>r' n path. ev \<noteq> Exec (diff_cmd r' n path)) \<and>
        (\<forall>p. ev \<noteq> Say (PromptText p)))"
  from a have m: "main e = (?t, Returned)"
    by (auto simp: main_def main_init_def main_listed_def)
  have g: "quiet (Exec git_remote_cmd)"
    by (simp add: quiet_def diff_cmd_neq(1) [symmetric])
  have s: "quiet (Say msg)" if "\<forall>p. msg \<noteq> PromptText p" for msg
    using that by (simp add: quiet_def)
  have "set evs \<subseteq> {Exec [''gh'', ''auth'', ''token''], Exec git_remote_cmd}"
    using a NewGitHubReviewer_events [of e evs "Inr r"] NewGitLabReviewer_events [of e evs "Inr r"]
    by (auto split: if_splits)
  moreover have "quiet (Exec [''gh'', ''auth'', ''token''])"
    by (simp add: quiet_def diff_cmd_neq(2) [symmetric])
  ultimately have q1: "\<forall>ev \<in> set evs. quiet ev" using g by blast
  have q2: "\<forall>ev \<in> set evs'. quiet ev"
  proof
    fix ev assume "ev \<in> set evs'"
    with a ListReviews_events [of e r evs' "Inr ([], None)" ev]
    have "(\<exists>owner repo. ev = ListPulls owner repo) \<or>
     (\<exists>path. ev = Exec [''glab'', ''mr'', ''list'', ''--repo'', path]) \<or>
     (\<exists>line err. ev = LogWarning line err)" by simp
    then show "quiet ev"
      by (elim disjE exE) (simp_all add: quiet_def diff_cmd_neq(3) [symmetric])
  qed
  have "\<forall>ev \<in> set ?t. quiet ev"
    using g q1 q2 s [of Detecting] s [of GitHubDetected] s [of GitLabDetected] s [of NoOpenReviews]
    by (simp add: ball_Un)
  with m show "main e = (?t, Returned) \<and>
     (\<forall>ev \<in> set (fst (main e)).
        (\<forall>items. ev \<noteq> Select items) \<and>
        (\<forall>r' n path. ev \<noteq> Exec (diff_cmd r' n path)) \<and>
        (\<forall>p. ev \<noteq> Say (PromptText p)))"
    by (simp add: quiet_def)
qed

theorem main_no_reviews_witness:
  "detectPlatform (run world_no_reviews git_remote_cmd) = (''gitlab'', None) \<and>
   (''gitlab'' = ''github'' \<or> ''gitlab'' = ''gitlab'') \<and>
   (if ''gitlab'' = ''github'' then NewGitHubReviewer world_no_reviews
    else NewGitLabReviewer world_no_reviews) =
     ([Exec git_remote_cmd], Inr (GitLabReviewer ''acme/widgets'')) \<and>
   ListReviews world_no_reviews (GitLabReviewer ''acme/widgets'') =
     ([Exec [''glab'', ''mr'', ''list'', ''--repo'', ''acme/widgets'']], Inr ([], None)) \<and>
   main world_no_reviews =
     ([Say Detecting, Exec git_remote_cmd, Say GitLabDetected, Exec git_remote_cmd,
       Exec [''glab'', ''mr'', ''list'', ''--repo'', ''acme/widgets''], Say NoOpenReviews],
      Returned)"
proof -
  let ?w = world_no_reviews
  have h1: "detectPlatform (run ?w git_remote_cmd) = (''gitlab'', None)" by code_simp
  have h2: "''gitlab'' = ''github'' \<or> ''gitlab'' = ''gitlab''" by simp
  have h3: "(if ''gitlab'' = ''github'' then NewGitHubReviewer ?w else NewGitLabReviewer ?w) =
     ([Exec git_remote_cmd], Inr (GitLabReviewer ''acme/widgets''))" by code_simp
  have h4: "ListReviews ?w (GitLabReviewer ''acme/widgets'') =
     ([Exec [''glab'', ''mr'', ''list'', ''--repo'', ''acme/widgets'']], Inr ([], None))"
    by code_simp
  from main_no_reviews [of ?w "''gitlab''" "[Exec git_remote_cmd]" "GitLabReviewer ''acme/widgets''"
      "[Exec [''glab'', ''mr'', ''list'', ''--repo'', ''acme/widgets'']]"] h1 h2 h3 h4
  have "main ?w =
       ([Say Detecting, Exec git_remote_cmd,
         Say (if ''gitlab'' = ''github'' then GitHubDetected else GitLabDetected)] @
        [Exec git_remote_cmd] @ [Exec [''glab'', ''mr'', ''list'', ''--repo'', ''acme/widgets'']] @
        [Say NoOpenReviews], Returned)"
    by blast
  then have "main ?w =
     ([Say Detecting, Exec git_remote_cmd, Say GitLabDetected, Exec git_remote_cmd,
       Exec [''glab'', ''mr'', ''list'', ''--repo'', ''acme/widgets''], Say NoOpenReviews],
      Returned)"
    by simp
  with h1 h2 h3 h4 show ?thesis by blast
qed

end
